theory Spec2Isabelle
  imports Complex_Main "HOL-Library.Sublist" "HOL-Library.AList" "HOL-Library.Log_Nat"
begin

section \<open>Python values reaching the phone normaliser\<close>

text \<open>
  \<^verbatim>\<open>normalize_phone\<close> makes two observations of its argument: its truth value
  (\<^verbatim>\<open>if not phone\<close>) and its \<^verbatim>\<open>str()\<close>. The arguments modelled are \<^verbatim>\<open>None\<close>,
  a string, an integer, and the \<^verbatim>\<open>nan\<close> that pandas puts in a cell whose key the
  record lacks. Strings are lists of code points below 256.
\<close>

datatype pyval = PyNone | PyStr string | PyInt int | PyNaN

fun truthy :: "pyval \<Rightarrow> bool" where
  "truthy PyNone = False"
| "truthy (PyStr s) = (s \<noteq> [])"
| "truthy (PyInt n) = (n \<noteq> 0)"
| "truthy PyNaN = True"

definition digit_char :: "nat \<Rightarrow> char" where
  "digit_char d = char_of (48 + d)"

function str_nat :: "nat \<Rightarrow> string" where
  "str_nat n = (if n < 10 then [digit_char n] else str_nat (n div 10) @ [digit_char (n mod 10)])"
  by pat_completeness auto
termination
  by (relation "measure (\<lambda>n. n)") auto

declare str_nat.simps [simp del]

fun py_str :: "pyval \<Rightarrow> string" where
  "py_str PyNone = ''None''"
| "py_str (PyStr s) = s"
| "py_str (PyInt n) = (if n < 0 then CHR ''-'' # str_nat (nat (- n)) else str_nat (nat n))"
| "py_str PyNaN = ''nan''"

text \<open>
  \<^verbatim>\<open>str.isdigit\<close> on code points below 256: the ASCII digits and the three
  superscript digits U+00B2, U+00B3, U+00B9.
\<close>

definition isdigit :: "char \<Rightarrow> bool" where
  "isdigit c = (let n = (of_char c :: nat)
                in (48 \<le> n \<and> n \<le> 57) \<or> n = 178 \<or> n = 179 \<or> n = 185)"

section \<open>tenant\_lookup.py: normalize\_phone\<close>

definition normalize_phone :: "pyval \<Rightarrow> string option" where
  "normalize_phone phone =
     (if \<not> truthy phone then None
      else
        let phone_str = py_str phone;
            normalized = filter isdigit phone_str;
            normalized = (if prefix ''0'' normalized \<and> length normalized = 11
                          then drop 1 normalized else normalized);
            normalized = (if length normalized = 10 then ''91'' @ normalized
                          else if length normalized = 12 \<and> prefix ''91'' normalized then normalized
                          else if length normalized > 12
                               then drop (length normalized - 12) normalized
                          else normalized)
        in Some normalized)"

section \<open>tenant\_lookup.py: the backing stores\<close>

text \<open>
  The two tables, with the columns the queries read. A column holds a string or SQL
  \<^verbatim>\<open>NULL\<close>. The three flags say whether borrowing a connection and running each of the
  two queries succeeds; when one is false the corresponding call raises. The two numbers
  are the database's choice in a \<^verbatim>\<open>LIMIT 1\<close> query without an order: the position,
  among the matching rows and modulo their number, of the row that comes back.
\<close>

record hist_row =
  phone_col :: "string option"
  mobile_col :: "string option"
  tenant_name :: "string option"
  tenant_property_name :: "string option"
  tenant_booking_id :: "string option"

record backing_store =
  pool_available :: bool
  live_query_ok :: bool
  historical_query_ok :: bool
  flat_booking_orders :: "string option list"
  all_tenants_data :: "hist_row list"
  live_limit_choice :: nat
  historical_limit_choice :: nat

text \<open>\<^verbatim>\<open>REGEXP_REPLACE(col, '[^0-9]', '', 'g')\<close>; \<^verbatim>\<open>NULL\<close> stays \<^verbatim>\<open>NULL\<close>.\<close>

definition regexp_replace_non_digits :: "string option \<Rightarrow> string option" where
  "regexp_replace_non_digits col =
     map_option (filter (\<lambda>c. 48 \<le> (of_char c :: nat) \<and> (of_char c :: nat) \<le> 57)) col"

text \<open>\<^verbatim>\<open>x = ANY(%s)\<close>: true when \<open>x\<close> is not \<^verbatim>\<open>NULL\<close> and equals an element of the array.\<close>

definition sql_any :: "string option \<Rightarrow> string option list \<Rightarrow> bool" where
  "sql_any x arr = (x \<noteq> None \<and> x \<in> set arr)"

definition query_live :: "backing_store \<Rightarrow> string option list \<Rightarrow> string option list" where
  "query_live st normalized_list =
     filter (\<lambda>d. sql_any d normalized_list)
       (map regexp_replace_non_digits (flat_booking_orders st))"

definition query_historical ::
  "backing_store \<Rightarrow> string option list \<Rightarrow> (string option \<times> string option \<times> string option) list" where
  "query_historical st normalized_list =
     map (\<lambda>r. (regexp_replace_non_digits (phone_col r), tenant_name r, tenant_property_name r))
       (filter (\<lambda>r. sql_any (regexp_replace_non_digits (phone_col r)) normalized_list
                    \<or> sql_any (regexp_replace_non_digits (mobile_col r)) normalized_list)
          (all_tenants_data st))"

section \<open>tenant\_lookup.py: batch\_lookup\<close>

text \<open>
  A Python dict is an association list in insertion order; storing under a key that is
  present replaces the value in place. A dict comprehension stores its pairs from left to
  right.
\<close>

definition dict_comp :: "('k \<times> 'v) list \<Rightarrow> ('k \<times> 'v) list" where
  "dict_comp kvs = fold (\<lambda>(k, v) d. AList.update k v d) kvs []"

definition dict_get :: "('k \<times> 'v) list \<Rightarrow> 'k \<Rightarrow> 'v \<Rightarrow> 'v" where
  "dict_get d k dflt = (case map_of d k of None \<Rightarrow> dflt | Some v \<Rightarrow> v)"

type_synonym tenant_info = "(string \<times> string option) list"
type_synonym lookup_result = "bool \<times> string \<times> tenant_info option"

definition batch_lookup :: "backing_store \<Rightarrow> pyval list \<Rightarrow> (pyval \<times> lookup_result) list" where
  "batch_lookup st phone_numbers =
     (let results = [] in
      if phone_numbers = [] then results
      else
        let normalized_phones =
              dict_comp (map (\<lambda>p. (normalize_phone p, p)) (filter truthy phone_numbers)) in
        if normalized_phones = [] then results
        else if \<not> pool_available st then results
        else
          let normalized_list = map fst normalized_phones in
          if \<not> live_query_ok st then results
          else
            let live_results = set (query_live st normalized_list) in
            if \<not> historical_query_ok st then results
            else
              let historical_results =
                    dict_comp (map (\<lambda>(k, n, pr). (k, [(''name'', n), (''property'', pr)]))
                                 (query_historical st normalized_list)) in
              fold (\<lambda>(normalized, original) results.
                      if normalized \<in> live_results
                      then AList.update original
                             (True, ''service'', Some [(''found_in'', Some ''live_data'')]) results
                      else if normalized \<in> fst ` set historical_results
                      then AList.update original
                             (True, ''service'',
                              Some ((''found_in'', Some ''historical_data'')
                                    # dict_get historical_results normalized [])) results
                      else AList.update original (False, ''enquiry'', None) results)
                   normalized_phones results)"

section \<open>tenant\_lookup.py: is\_tenant\<close>

text \<open>
  The one-by-one lookup. Both queries end in \<^verbatim>\<open>LIMIT 1\<close> without an order, so any of
  the matching rows may come back: the store's choice decides. The historical query is only
  run when the live one finds nothing.
\<close>

definition limit_1 :: "nat \<Rightarrow> 'a list \<Rightarrow> 'a option" where
  "limit_1 choice rows = (if rows = [] then None else Some (rows ! (choice mod length rows)))"

definition is_tenant :: "backing_store \<Rightarrow> pyval \<Rightarrow> bool \<times> string option \<times> tenant_info option" where
  "is_tenant st phone_number =
     (if \<not> truthy phone_number then (False, None, None)
      else
        case normalize_phone phone_number of
          None \<Rightarrow> (False, None, None)
        | Some normalized_phone \<Rightarrow>
            if normalized_phone = [] then (False, None, None)
            else if \<not> pool_available st then (False, Some ''unknown'', None)
            else if \<not> live_query_ok st then (False, Some ''unknown'', None)
            else
              case limit_1 (live_limit_choice st)
                     (filter (\<lambda>c. regexp_replace_non_digits c = Some normalized_phone)
                        (flat_booking_orders st)) of
                Some c \<Rightarrow>
                  (True, Some ''service'',
                   Some [(''phone'', c), (''found_in'', Some ''live_data''),
                         (''table'', Some ''flat_booking_orders'')])
              | None \<Rightarrow>
                  if \<not> historical_query_ok st then (False, Some ''unknown'', None)
                  else
                    case limit_1 (historical_limit_choice st)
                           (filter (\<lambda>r. regexp_replace_non_digits (phone_col r) = Some normalized_phone
                                       \<or> regexp_replace_non_digits (mobile_col r) = Some normalized_phone)
                              (all_tenants_data st)) of
                      Some r \<Rightarrow>
                        (True, Some ''service'',
                         Some [(''phone'', phone_col r), (''name'', tenant_name r),
                               (''property'', tenant_property_name r),
                               (''booking_id'', tenant_booking_id r),
                               (''found_in'', Some ''historical_data''),
                               (''table'', Some ''all_tenants_data_upto_2025_09_09'')])
                    | None \<Rightarrow> (False, Some ''enquiry'', None))"

text \<open>A store used in the worked scenarios: one live row and one historical row for the
  same subscriber, every query succeeding.\<close>

definition example_store :: backing_store where
  "example_store =
     \<lparr>pool_available = True, live_query_ok = True, historical_query_ok = True,
      flat_booking_orders = [Some ''+91 98765-43210''],
      all_tenants_data =
        [\<lparr>phone_col = Some ''919876543210'', mobile_col = None,
          tenant_name = Some ''A'', tenant_property_name = Some ''P'',
          tenant_booking_id = Some ''B1''\<rparr>],
      live_limit_choice = 0, historical_limit_choice = 0\<rparr>"

section \<open>lambda\_handler.py: fetch\_calls\<close>

text \<open>
  What the telephony API answers to one \<^verbatim>\<open>requests.get\<close>: either the call raises
  (timeout, connection failure), or a response arrives with a status code and a body. Of
  the body the loop reads \<^verbatim>\<open>data.get('Calls', [])\<close> and
  \<^verbatim>\<open>data.get('Metadata', {}).get('NextPageUri')\<close>; the body is \<open>None\<close> when
  \<^verbatim>\<open>response.json()\<close> raises. The API is the sequence of its answers: \<open>api i\<close> is the
  answer to the \<open>i\<close>-th request, counted from 0.
\<close>

record 'c page_body =
  Calls :: "'c list"
  NextPageUri :: "string option"

datatype 'c http_response =
    Request_failed
  | Response nat "'c page_body option"

type_synonym 'c api = "nat \<Rightarrow> 'c http_response"

record request =
  url :: string
  params :: "(string \<times> pyval) list"

text \<open>
  How the \<^verbatim>\<open>while True\<close> loop is left: by \<^verbatim>\<open>break\<close>, or by an exception that the
  handler of \<^verbatim>\<open>fetch_calls\<close> catches. Both carry \<^verbatim>\<open>all_calls\<close> as it stands then.
\<close>

datatype 'c loop_exit = Break "'c list" | Exception "'c list"

text \<open>
  The loop, with the list \<open>sent\<close> of the requests issued so far as a ghost variable. The
  loop has no bound of its own, so the function is partial: \<open>None\<close> means it never ends.
\<close>

partial_function (option) fetch_loop ::
  "'c api \<Rightarrow> request \<Rightarrow> 'c list \<Rightarrow> request list \<Rightarrow> (request list \<times> 'c loop_exit) option" where
  "fetch_loop api req all_calls sent =
     (case api (length sent) of
        Request_failed \<Rightarrow> Some (sent @ [req], Exception all_calls)
      | Response status_code body \<Rightarrow>
          if status_code = 200 then
            (case body of
               None \<Rightarrow> Some (sent @ [req], Exception all_calls)
             | Some data \<Rightarrow>
                 if Calls data = [] then Some (sent @ [req], Break all_calls)
                 else
                   (case NextPageUri data of
                      None \<Rightarrow> Some (sent @ [req], Break (all_calls @ Calls data))
                    | Some next_page_uri \<Rightarrow>
                        if next_page_uri = [] then Some (sent @ [req], Break (all_calls @ Calls data))
                        else fetch_loop api
                               \<lparr>url = ''https://api.exotel.com'' @ next_page_uri, params = []\<rparr>
                               (all_calls @ Calls data) (sent @ [req])))
          else Some (sent @ [req], Break all_calls))"

declare fetch_loop.simps [code]

text \<open>
  \<^verbatim>\<open>fetch_calls\<close>. The two \<^verbatim>\<open>strptime\<close>/\<^verbatim>\<open>strftime\<close> lines are represented by their
  outcome \<open>date_filter\<close>: the filter string, or \<open>None\<close> when a date does not parse, which
  raises before any request. The result pairs the requests issued with the list returned.
\<close>

definition fetch_calls ::
  "'c api \<Rightarrow> string \<Rightarrow> string option \<Rightarrow> (request list \<times> 'c list) option" where
  "fetch_calls api base_url date_filter =
     (case date_filter of
        None \<Rightarrow> Some ([], [])
      | Some flt \<Rightarrow>
          (case fetch_loop api
                  \<lparr>url = base_url @ ''/Calls.json'',
                   params = [(''DateCreated'', PyStr flt), (''PageSize'', PyInt 100),
                             (''SortBy'', PyStr ''DateCreated:desc'')]\<rparr> [] [] of
             None \<Rightarrow> None
           | Some (sent, Break all_calls) \<Rightarrow> Some (sent, all_calls)
           | Some (sent, Exception all_calls) \<Rightarrow> Some (sent, [])))"

text \<open>
  Vocabulary for the pagination properties: the records a response delivers, whether a
  response makes the loop go on (status 200, a non-empty page and a non-empty cursor), and
  the records delivered by the first \<open>n\<close> responses.
\<close>

fun page_calls :: "'c http_response \<Rightarrow> 'c list" where
  "page_calls Request_failed = []"
| "page_calls (Response status_code None) = []"
| "page_calls (Response status_code (Some data)) = (if status_code = 200 then Calls data else [])"

fun continues :: "'c http_response \<Rightarrow> bool" where
  "continues Request_failed = False"
| "continues (Response status_code None) = False"
| "continues (Response status_code (Some data)) =
     (status_code = 200 \<and> Calls data \<noteq> [] \<and> NextPageUri data \<noteq> None \<and> NextPageUri data \<noteq> Some [])"

definition received :: "'c api \<Rightarrow> nat \<Rightarrow> 'c list" where
  "received api n = concat (map (\<lambda>i. page_calls (api i)) [0..<n])"

definition PageSize :: nat where
  "PageSize = 100"

text \<open>Three scripted APIs for the worked scenarios: one page and then a timeout, one
  page and then status 500, and three pages of one record each.\<close>

definition example_api_timeout :: "string api" where
  "example_api_timeout i =
     (if i = 0 then Response 200 (Some \<lparr>Calls = [''CA1''], NextPageUri = Some ''/v1/next''\<rparr>)
      else Request_failed)"

definition example_api_status500 :: "string api" where
  "example_api_status500 i =
     (if i = 0 then Response 200 (Some \<lparr>Calls = [''CA1''], NextPageUri = Some ''/v1/next''\<rparr>)
      else Response 500 None)"

definition example_api_short_pages :: "string api" where
  "example_api_short_pages i =
     (if i < 2 then Response 200 (Some \<lparr>Calls = [''CA1''], NextPageUri = Some ''/v1/next''\<rparr>)
      else Response 200 (Some \<lparr>Calls = [''CA1''], NextPageUri = None\<rparr>))"

definition example_api_full_pages :: "string api" where
  "example_api_full_pages i =
     (if i = 0
      then Response 200 (Some \<lparr>Calls = replicate 100 ''CA1'', NextPageUri = Some ''/v1/next''\<rparr>)
      else Response 200 (Some \<lparr>Calls = replicate 37 ''CA1'', NextPageUri = None\<rparr>))"

section \<open>Python numbers in the analytics\<close>

text \<open>
  A Python \<^verbatim>\<open>float\<close> is an IEEE 754 binary64 value. The finite ones are modelled by the
  rational they denote (the sign of zero is not kept); no NaN arises in the operations
  used here. The percentage fields hold the \<^verbatim>\<open>int\<close> 0 they are initialised with, or the
  \<^verbatim>\<open>float\<close> that \<^verbatim>\<open>round\<close> returns.
\<close>

datatype pyfloat = Finite rat | PInf | NInf

datatype pynum = PInt int | PFloat pyfloat

datatype py_error = ZeroDivisionError | OverflowError | KeyError

definition round_half_even :: "rat \<Rightarrow> int" where
  "round_half_even q =
     (let f = \<lfloor>q\<rfloor>; r = q - of_int f
      in if r < 1 / 2 then f else if 1 / 2 < r then f + 1 else if even f then f else f + 1)"

definition pow2 :: "int \<Rightarrow> rat" where
  "pow2 e = 2 powi e"

text \<open>The binary exponent of a non-zero rational: \<open>pow2 e \<le> |q| < pow2 (e + 1)\<close>.\<close>

definition exponent :: "rat \<Rightarrow> int" where
  "exponent q =
     (let (a, b) = quotient_of \<bar>q\<bar>;
          e0 = int (floorlog 2 (nat a)) - int (floorlog 2 (nat b))
      in if pow2 e0 \<le> \<bar>q\<bar> then e0 else e0 - 1)"

text \<open>
  Rounding a rational to binary64, to nearest with ties to even: 53 significant bits, the
  spacing never below \<open>2\<^sup>-\<^sup>1\<^sup>0\<^sup>7\<^sup>4\<close> (subnormals), infinity from \<open>2\<^sup>1\<^sup>0\<^sup>2\<^sup>4\<close> on.
\<close>

definition to_double :: "rat \<Rightarrow> pyfloat" where
  "to_double q =
     (if q = 0 then Finite 0
      else
        let ulp = pow2 (max (exponent q - 52) (- 1074));
            r = of_int (round_half_even (q / ulp)) * ulp
        in if pow2 1024 \<le> r then PInf else if r \<le> - pow2 1024 then NInf else Finite r)"

text \<open>\<^verbatim>\<open>a / b\<close> on two \<^verbatim>\<open>int\<close>s: the correctly rounded quotient, or an exception.\<close>

definition int_truediv :: "int \<Rightarrow> int \<Rightarrow> py_error + pyfloat" where
  "int_truediv a b =
     (if b = 0 then Inl ZeroDivisionError
      else case to_double (of_int a / of_int b) of
             Finite r \<Rightarrow> Inr (Finite r)
           | PInf \<Rightarrow> Inl OverflowError
           | NInf \<Rightarrow> Inl OverflowError)"

text \<open>\<^verbatim>\<open>x * 100\<close> on a \<^verbatim>\<open>float\<close> and the \<^verbatim>\<open>int\<close> 100.\<close>

definition float_mul_100 :: "pyfloat \<Rightarrow> pyfloat" where
  "float_mul_100 x = (case x of Finite q \<Rightarrow> to_double (q * 100) | PInf \<Rightarrow> PInf | NInf \<Rightarrow> NInf)"

text \<open>
  \<^verbatim>\<open>round(x, 1)\<close> on a \<^verbatim>\<open>float\<close>: the exact value is rounded to one decimal, ties to
  even, and the decimal is converted back to the nearest \<^verbatim>\<open>float\<close>; infinities round to
  themselves.
\<close>

definition py_round1 :: "pyfloat \<Rightarrow> py_error + pyfloat" where
  "py_round1 x =
     (case x of
        Finite q \<Rightarrow>
          (case to_double (of_int (round_half_even (q * 10)) / 10) of
             Finite r \<Rightarrow> Inr (Finite r)
           | PInf \<Rightarrow> Inl OverflowError
           | NInf \<Rightarrow> Inl OverflowError)
      | PInf \<Rightarrow> Inr PInf
      | NInf \<Rightarrow> Inr NInf)"

text \<open>\<^verbatim>\<open>round((a / b) * 100, 1)\<close>, the expression of every percentage.\<close>

definition percentage :: "int \<Rightarrow> int \<Rightarrow> py_error + pynum" where
  "percentage a b =
     (case int_truediv a b of
        Inl e \<Rightarrow> Inl e
      | Inr q \<Rightarrow> (case py_round1 (float_mul_100 q) of
                   Inl e \<Rightarrow> Inl e
                 | Inr r \<Rightarrow> Inr (PFloat r)))"

section \<open>app.py: the analytics snapshot and calculate\_comparison\<close>

text \<open>
  The entries of the \<^verbatim>\<open>analytics\<close> dict that the comparison and the percentage
  properties read. The entries \<^verbatim>\<open>avg_duration\<close>, \<^verbatim>\<open>daily_calls\<close>,
  \<^verbatim>\<open>hourly_calls\<close> and the three breakdowns are computed from the same rows and feed
  none of these.
\<close>

record analytics =
  total_calls :: int
  incoming_calls :: int
  outgoing_calls :: int
  answered_calls :: int
  missed_calls :: int
  service_calls :: int
  enquiry_calls :: int
  service_percentage :: pynum
  enquiry_percentage :: pynum

record comparison =
  total_calls_change :: int
  incoming_calls_change :: int
  service_calls_change :: int
  enquiry_calls_change :: int
  total_calls_pct :: pynum
  incoming_calls_pct :: pynum
  service_calls_pct :: pynum
  enquiry_calls_pct :: pynum

text \<open>
  One of the four guarded assignments inside the \<^verbatim>\<open>try\<close>: \<open>Inr\<close> is the dict after
  the statement, \<open>Inl\<close> the dict as it stands when the statement raises.
\<close>

definition pct_step ::
  "int \<Rightarrow> int \<Rightarrow> (pynum \<Rightarrow> comparison \<Rightarrow> comparison) \<Rightarrow> comparison \<Rightarrow> comparison + comparison" where
  "pct_step previous change store comparison =
     (if previous > 0
      then (case percentage change previous of
              Inl e \<Rightarrow> Inl comparison
            | Inr v \<Rightarrow> Inr (store v comparison))
      else Inr comparison)"

definition calculate_comparison :: "analytics option \<Rightarrow> analytics option \<Rightarrow> comparison" where
  "calculate_comparison current_analytics previous_analytics =
     (let comparison =
            \<lparr>total_calls_change = 0, incoming_calls_change = 0, service_calls_change = 0,
             enquiry_calls_change = 0, total_calls_pct = PInt 0, incoming_calls_pct = PInt 0,
             service_calls_pct = PInt 0, enquiry_calls_pct = PInt 0\<rparr>
      in case previous_analytics of
           None \<Rightarrow> comparison
         | Some previous \<Rightarrow>
        (case current_analytics of
           None \<Rightarrow> comparison
         | Some current \<Rightarrow>
             let comparison = comparison
                   \<lparr>total_calls_change := total_calls current - total_calls previous,
                    incoming_calls_change := incoming_calls current - incoming_calls previous,
                    service_calls_change := service_calls current - service_calls previous,
                    enquiry_calls_change := enquiry_calls current - enquiry_calls previous\<rparr>
             in case pct_step (total_calls previous) (total_calls_change comparison)
                       (\<lambda>v c. c\<lparr>total_calls_pct := v\<rparr>) comparison of
                  Inl comparison \<Rightarrow> comparison
                | Inr comparison \<Rightarrow>
               (case pct_step (incoming_calls previous) (incoming_calls_change comparison)
                       (\<lambda>v c. c\<lparr>incoming_calls_pct := v\<rparr>) comparison of
                  Inl comparison \<Rightarrow> comparison
                | Inr comparison \<Rightarrow>
               (case pct_step (service_calls previous) (service_calls_change comparison)
                       (\<lambda>v c. c\<lparr>service_calls_pct := v\<rparr>) comparison of
                  Inl comparison \<Rightarrow> comparison
                | Inr comparison \<Rightarrow>
               (case pct_step (enquiry_calls previous) (enquiry_calls_change comparison)
                       (\<lambda>v c. c\<lparr>enquiry_calls_pct := v\<rparr>) comparison of
                  Inl comparison \<Rightarrow> comparison
                | Inr comparison \<Rightarrow> comparison)))))"

text \<open>The scenario of a previous period without incoming calls.\<close>

definition example_previous :: analytics where
  "example_previous =
     \<lparr>total_calls = 4, incoming_calls = 0, outgoing_calls = 4, answered_calls = 3,
      missed_calls = 1, service_calls = 0, enquiry_calls = 0,
      service_percentage = PInt 0, enquiry_percentage = PInt 0\<rparr>"

definition example_current :: analytics where
  "example_current =
     \<lparr>total_calls = 12, incoming_calls = 10, outgoing_calls = 2, answered_calls = 9,
      missed_calls = 3, service_calls = 4, enquiry_calls = 6,
      service_percentage = PFloat (Finite 40), enquiry_percentage = PFloat (Finite 60)\<rparr>"

section \<open>lambda\_handler.py: process\_analytics\<close>

text \<open>
  A call record is a JSON object. The cells that the function reads (\<^verbatim>\<open>Sid\<close>,
  \<^verbatim>\<open>Direction\<close>, \<^verbatim>\<open>From\<close>, \<^verbatim>\<open>To\<close>, \<^verbatim>\<open>PhoneNumber\<close>, \<^verbatim>\<open>Status\<close>) are
  strings in the records of the API, so a record is an association list from keys to
  strings; numbers and nulls, which the column type inference of pandas may rewrite, are
  outside the model. The DataFrame built from the records has a column for every key that
  occurs in some record, and a cell holds \<^verbatim>\<open>nan\<close> where the record lacks the key.
  Filtering rows keeps the columns, so the columns are always read off the original list
  \<open>calls\<close>.
\<close>

type_synonym call = "(string \<times> string) list"

definition has_column :: "call list \<Rightarrow> string \<Rightarrow> bool" where
  "has_column calls col = (\<exists>c\<in>set calls. col \<in> fst ` set c)"

definition cell :: "call \<Rightarrow> string \<Rightarrow> pyval" where
  "cell row col = (case map_of row col of None \<Rightarrow> PyNaN | Some v \<Rightarrow> PyStr v)"

text \<open>\<^verbatim>\<open>row.get(col, '')\<close> on a row of the DataFrame.\<close>

definition row_get :: "call list \<Rightarrow> call \<Rightarrow> string \<Rightarrow> pyval" where
  "row_get calls row col = (if has_column calls col then cell row col else PyStr [])"

definition matches_exophone :: "call list \<Rightarrow> string \<Rightarrow> call \<Rightarrow> bool" where
  "matches_exophone calls filter_digits row =
     (let phone_num = py_str (row_get calls row ''PhoneNumber'');
          to_num = py_str (row_get calls row ''To'')
      in sublist filter_digits phone_num \<or> sublist filter_digits to_num)"

definition filter_by_exophone :: "call list \<Rightarrow> string option \<Rightarrow> call list" where
  "filter_by_exophone calls exophone_filter =
     (case exophone_filter of
        None \<Rightarrow> calls
      | Some f \<Rightarrow>
          if f \<noteq> [] \<and> (has_column calls ''PhoneNumber'' \<or> has_column calls ''To'')
          then let digits = filter isdigit f;
                   filter_digits = drop (length digits - 10) digits
               in filter (matches_exophone calls filter_digits) calls
          else calls)"

text \<open>\<^verbatim>\<open>Series.unique().tolist()\<close>: the distinct values in order of first appearance.\<close>

definition unique :: "'a list \<Rightarrow> 'a list" where
  "unique xs = fold (\<lambda>x acc. if x \<in> set acc then acc else acc @ [x]) xs []"

text \<open>
  The join key of \<^verbatim>\<open>merge(..., on='Sid', how='left')\<close>: pandas matches null keys with
  each other.
\<close>

definition merge_key :: "pyval \<Rightarrow> pyval" where
  "merge_key v = (if v = PyNone \<or> v = PyNaN then PyNaN else v)"

text \<open>
  The categorisation block. The result is the DataFrame after it, each row paired with its
  \<^verbatim>\<open>call_category\<close>; the left join yields one row per matching inbound row, or one row
  with a null category, which \<^verbatim>\<open>fillna\<close> turns into \<^verbatim>\<open>outgoing\<close>. The join raises
  \<^verbatim>\<open>KeyError\<close> when there is no \<^verbatim>\<open>Sid\<close> column, and so does the read of
  \<^verbatim>\<open>call_category\<close> after it when the records bring a column of that name.
\<close>

definition categorize_calls ::
  "backing_store \<Rightarrow> call list \<Rightarrow> call list \<Rightarrow> py_error + (call \<times> string) list" where
  "categorize_calls st calls df =
     (if has_column calls ''Direction'' \<and> has_column calls ''From''
      then
        let incoming_df = filter (\<lambda>r. cell r ''Direction'' = PyStr ''inbound'') df in
        if incoming_df \<noteq> []
        then
          let phone_numbers = unique (map (\<lambda>r. cell r ''From'') incoming_df);
              lookup_results = batch_lookup st phone_numbers;
              categorize_call =
                (\<lambda>phone. fst (snd (dict_get lookup_results phone (False, ''enquiry'', None))));
              incoming_df = map (\<lambda>r. (r, categorize_call (cell r ''From''))) incoming_df
          in if \<not> has_column calls ''Sid'' \<or> has_column calls ''call_category''
             then Inl KeyError
             else Inr (concat (map (\<lambda>l.
                    let matches = filter (\<lambda>(r, c). merge_key (cell r ''Sid'') = merge_key (cell l ''Sid''))
                                    incoming_df
                    in if matches = [] then [(l, ''outgoing'')]
                       else map (\<lambda>(r, c). (l, c)) matches) df))
        else Inr (map (\<lambda>r. (r, ''outgoing'')) df)
      else Inr (map (\<lambda>r. (r, ''unknown'')) df))"

definition count_rows :: "('a \<Rightarrow> bool) \<Rightarrow> 'a list \<Rightarrow> int" where
  "count_rows P df = int (length (filter P df))"

text \<open>
  The steps of pandas that are not computed here, each by its outcome: whether
  \<^verbatim>\<open>pd.to_datetime\<close> accepts the \<^verbatim>\<open>DateCreated\<close> column, and whether the remaining
  entries of the \<^verbatim>\<open>analytics\<close> dict (the mean of \<^verbatim>\<open>Duration\<close>, the two group-bys and
  the breakdowns) are computed on the rows of the joined DataFrame without raising. They
  read the rows, never the store.
\<close>

record pandas =
  to_datetime_ok :: "pyval list \<Rightarrow> bool"
  metrics_ok :: "call list \<Rightarrow> bool"

text \<open>
  \<^verbatim>\<open>process_analytics\<close>. \<open>None\<close> is the \<^verbatim>\<open>None\<close> it returns: for no calls, for no
  row left by the filter, and from its exception handler, which every step after the
  filter can reach.
\<close>

definition process_analytics ::
  "pandas \<Rightarrow> backing_store \<Rightarrow> call list \<Rightarrow> string option \<Rightarrow> analytics option" where
  "process_analytics pd st calls exophone_filter =
     (if calls = [] then None
      else
        let df = filter_by_exophone calls exophone_filter in
        if df = [] then None
        else if has_column calls ''DateCreated''
                \<and> \<not> to_datetime_ok pd (map (\<lambda>r. cell r ''DateCreated'') df) then None
        else
          case categorize_calls st calls df of
            Inl e \<Rightarrow> None
          | Inr df \<Rightarrow>
              let direction = (\<lambda>(r, c). cell r ''Direction'');
                  status = (\<lambda>(r, c). cell r ''Status'');
                  analytics =
                    \<lparr>total_calls = int (length df),
                     incoming_calls =
                       (if has_column calls ''Direction''
                        then count_rows (\<lambda>x. direction x = PyStr ''inbound'') df else 0),
                     outgoing_calls =
                       (if has_column calls ''Direction''
                        then count_rows (\<lambda>x. case direction x of
                                                PyStr s \<Rightarrow> prefix ''outbound'' s | _ \<Rightarrow> False) df
                        else 0),
                     answered_calls =
                       (if has_column calls ''Status''
                        then count_rows (\<lambda>x. status x = PyStr ''completed'') df else 0),
                     missed_calls =
                       (if has_column calls ''Status''
                        then count_rows (\<lambda>x. status x = PyStr ''no-answer''
                                              \<or> status x = PyStr ''failed''
                                              \<or> status x = PyStr ''busy'') df
                        else 0),
                     service_calls = count_rows (\<lambda>(r, c). c = ''service'') df,
                     enquiry_calls = count_rows (\<lambda>(r, c). c = ''enquiry'') df,
                     service_percentage = PInt 0,
                     enquiry_percentage = PInt 0\<rparr>
              in if \<not> metrics_ok pd (map fst df) then None
                 else if incoming_calls analytics > 0
                 then
                   (case percentage (service_calls analytics) (incoming_calls analytics) of
                      Inl e \<Rightarrow> None
                    | Inr sp \<Rightarrow>
                        (case percentage (enquiry_calls analytics) (incoming_calls analytics) of
                           Inl e \<Rightarrow> None
                         | Inr ep \<Rightarrow>
                             Some (analytics\<lparr>service_percentage := sp, enquiry_percentage := ep\<rparr>)))
                 else Some analytics)"

text \<open>The numeric value of a percentage field, when it is finite.\<close>

fun value_of :: "pynum \<Rightarrow> rat option" where
  "value_of (PInt n) = Some (of_int n)"
| "value_of (PFloat (Finite q)) = Some q"
| "value_of (PFloat PInf) = None"
| "value_of (PFloat NInf) = None"

text \<open>
  Scenario data: four inbound calls and one outbound call; three of the inbound calls come
  from one subscriber, written in two ways. In the scenarios pandas accepts every timestamp
  but \<^verbatim>\<open>garbage\<close> and computes the remaining entries.
\<close>

definition example_calls :: "call list" where
  "example_calls =
     [[(''Sid'', ''s1''), (''Direction'', ''inbound''), (''From'', ''+919876543210''),
       (''To'', ''08047361499''), (''Status'', ''completed''),
       (''DateCreated'', ''2025-01-01 10:00:00'')],
      [(''Sid'', ''s2''), (''Direction'', ''inbound''), (''From'', ''9876543210''),
       (''To'', ''08047361499''), (''Status'', ''no-answer''),
       (''DateCreated'', ''2025-01-01 10:05:00'')],
      [(''Sid'', ''s3''), (''Direction'', ''inbound''), (''From'', ''07000000000''),
       (''To'', ''08047361499''), (''Status'', ''completed''),
       (''DateCreated'', ''2025-01-01 11:00:00'')],
      [(''Sid'', ''s4''), (''Direction'', ''outbound-api''), (''From'', ''08047361499''),
       (''To'', ''09123456789''), (''Status'', ''busy''),
       (''DateCreated'', ''2025-01-01 12:00:00'')],
      [(''Sid'', ''s5''), (''Direction'', ''inbound''), (''From'', ''9876543210''),
       (''To'', ''08047361499''), (''Status'', ''completed''),
       (''DateCreated'', ''2025-01-01 13:00:00'')]]"

definition example_pandas :: pandas where
  "example_pandas =
     \<lparr>to_datetime_ok = (\<lambda>column. PyStr ''garbage'' \<notin> set column),
      metrics_ok = (\<lambda>rows. True)\<rparr>"

section \<open>Properties of normalize\_phone\<close>

lemma isdigit_9 [simp]: "isdigit CHR ''9''" and isdigit_1 [simp]: "isdigit CHR ''1''"
  by (simp_all add: isdigit_def)

lemma normalize_phone_PyStr:
  "normalize_phone (PyStr s) =
     (if s = [] then None
      else let d = filter isdigit s in
        Some (if prefix ''0'' d \<and> length d = 11 then ''91'' @ drop 1 d
              else if length d = 10 then ''91'' @ d
              else if length d > 12 then drop (length d - 12) d
              else d))"
  by (auto simp: normalize_phone_def Let_def)

lemma in_drop_filter: "c \<in> set (drop n (filter P xs)) \<Longrightarrow> P c"
  by (auto dest: in_set_dropD)

lemma normalize_phone_digits:
  assumes "normalize_phone p = Some s"
  shows "\<forall>c\<in>set s. isdigit c"
  using assms
  by (auto simp: normalize_phone_def Let_def split: if_splits dest: in_drop_filter)

lemma normalize_phone_length:
  assumes "normalize_phone p = Some s"
  shows "length s \<le> 12"
  using assms
  by (auto simp: normalize_phone_def Let_def split: if_splits)

lemma filter_id: "\<forall>c\<in>set s. isdigit c \<Longrightarrow> filter isdigit s = s"
  by (induction s) auto

text \<open>
  Claim C4, as amended. The three documented examples hold and the empty string gives
  \<^verbatim>\<open>None\<close>. A non-empty string without any digit character does not give \<^verbatim>\<open>None\<close>:
  the emptiness test is made on the raw argument, before the digits are extracted, so the
  function returns the empty string.
\<close>

theorem C4_normalize_examples:
  "normalize_phone (PyStr ''+919876543210'') = Some ''919876543210''
   \<and> normalize_phone (PyStr ''9876543210'') = Some ''919876543210''
   \<and> normalize_phone (PyStr ''08840810719'') = Some ''918840810719''
   \<and> normalize_phone (PyStr '''') = None
   \<and> (\<forall>s. s \<noteq> [] \<and> (\<forall>c\<in>set s. \<not> isdigit c) \<longrightarrow> normalize_phone (PyStr s) = Some [])"
proof -
  have "normalize_phone (PyStr s) = Some []" if "s \<noteq> []" "\<forall>c\<in>set s. \<not> isdigit c" for s
  proof -
    from that(2) have "filter isdigit s = []" by (simp add: filter_empty_conv)
    with that(1) show ?thesis by (simp add: normalize_phone_PyStr)
  qed
  moreover have "normalize_phone (PyStr ''+919876543210'') = Some ''919876543210''"
    by (simp add: normalize_phone_PyStr isdigit_def)
  moreover have "normalize_phone (PyStr ''9876543210'') = Some ''919876543210''"
    by (simp add: normalize_phone_PyStr isdigit_def)
  moreover have "normalize_phone (PyStr ''08840810719'') = Some ''918840810719''"
    by (simp add: normalize_phone_PyStr isdigit_def)
  moreover have "normalize_phone (PyStr '''') = None"
    by (simp add: normalize_phone_PyStr)
  ultimately show ?thesis by blast
qed

theorem C4_normalize_examples_witness:
  "''abc'' \<noteq> [] \<and> \<not> isdigit CHR ''a'' \<and> \<not> isdigit CHR ''b'' \<and> \<not> isdigit CHR ''c''
   \<and> normalize_phone (PyStr ''abc'') = Some []"
proof -
  have h: "''abc'' \<noteq> [] \<and> (\<forall>c\<in>set ''abc''. \<not> isdigit c)"
    by (simp add: isdigit_def)
  from C4_normalize_examples
  have "\<forall>s. s \<noteq> [] \<and> (\<forall>c\<in>set s. \<not> isdigit c) \<longrightarrow> normalize_phone (PyStr s) = Some []"
    by (elim conjE)
  with h show ?thesis by (simp add: isdigit_def)
qed

text \<open>
  Claim C4 as written fails: \<^verbatim>\<open>"abc"\<close> holds no digit character and is not mapped to
  \<^verbatim>\<open>None\<close>.
\<close>

theorem C4_non_digit_input_counterexample:
  "\<not> isdigit CHR ''a'' \<and> \<not> isdigit CHR ''b'' \<and> \<not> isdigit CHR ''c''
   \<and> normalize_phone (PyStr ''abc'') \<noteq> None"
  by (simp add: normalize_phone_def isdigit_def)

text \<open>
  Claim C5. For every string holding at least one digit character, normalising returns a
  key, and normalising that key returns it unchanged.
\<close>

theorem C5_normalize_idempotent:
  assumes "\<exists>c\<in>set x. isdigit c"
  shows "\<exists>y. normalize_phone (PyStr x) = Some y
             \<and> normalize_phone (PyStr y) = normalize_phone (PyStr x)"
proof -
  let ?d = "filter isdigit x"
  from assms have dne: "?d \<noteq> []" by (auto simp: filter_empty_conv)
  from assms have xne: "x \<noteq> []" by auto
  obtain y where y: "normalize_phone (PyStr x) = Some y"
    using xne by (auto simp: normalize_phone_def Let_def)
  have dig: "filter isdigit y = y"
    using normalize_phone_digits[OF y] by (rule filter_id)
  have yne: "y \<noteq> []"
    using y dne xne by (auto simp: normalize_phone_PyStr Let_def split: if_splits)
  have "length y = 12 \<and> prefix ''91'' y
        \<or> (length y \<noteq> 10 \<and> length y \<le> 12 \<and> \<not> (prefix ''0'' y \<and> length y = 11))"
    using y xne by (auto simp: normalize_phone_PyStr Let_def split: if_splits)
  then have "normalize_phone (PyStr y) = Some y"
    using yne dig by (auto simp: normalize_phone_PyStr Let_def)
  with y show ?thesis by simp
qed

theorem C5_normalize_idempotent_witness:
  "(\<exists>c\<in>set ''08840810719''. isdigit c)
   \<and> (\<exists>y. normalize_phone (PyStr ''08840810719'') = Some y
          \<and> normalize_phone (PyStr y) = normalize_phone (PyStr ''08840810719''))"
proof -
  have h: "\<exists>c\<in>set ''08840810719''. isdigit c"
    by (simp add: isdigit_def)
  from h C5_normalize_idempotent [OF h] show ?thesis by blast
qed

text \<open>
  Claim C10. Whatever the argument, the result is \<^verbatim>\<open>None\<close> or a string of digit
  characters of length at most 12; when the argument holds more than 12 digits the result
  is its last 12 digits.
\<close>

theorem C10_normalize_phone_range:
  "(normalize_phone phone = None
      \<or> (\<exists>s. normalize_phone phone = Some s \<and> (\<forall>c\<in>set s. isdigit c) \<and> length s \<le> 12))
   \<and> (truthy phone \<and> length (filter isdigit (py_str phone)) > 12 \<longrightarrow>
        normalize_phone phone
          = Some (drop (length (filter isdigit (py_str phone)) - 12) (filter isdigit (py_str phone))))"
proof
  show "normalize_phone phone = None
      \<or> (\<exists>s. normalize_phone phone = Some s \<and> (\<forall>c\<in>set s. isdigit c) \<and> length s \<le> 12)"
    using normalize_phone_digits normalize_phone_length by (cases "normalize_phone phone") auto
next
  show "truthy phone \<and> length (filter isdigit (py_str phone)) > 12 \<longrightarrow>
        normalize_phone phone
          = Some (drop (length (filter isdigit (py_str phone)) - 12) (filter isdigit (py_str phone)))"
    by (simp add: normalize_phone_def Let_def)
qed

theorem C10_normalize_phone_range_witness:
  "truthy (PyStr ''0091-9876543210'')
   \<and> length (filter isdigit (py_str (PyStr ''0091-9876543210''))) > 12
   \<and> normalize_phone (PyStr ''0091-9876543210'') = Some ''919876543210''
   \<and> length ''919876543210'' \<le> 12"
proof -
  have h: "truthy (PyStr ''0091-9876543210'')
           \<and> length (filter isdigit (py_str (PyStr ''0091-9876543210''))) > 12"
    by (simp add: isdigit_def)
  from C10_normalize_phone_range [of "PyStr ''0091-9876543210''"] h
  have "normalize_phone (PyStr ''0091-9876543210'')
          = Some (drop (length (filter isdigit (py_str (PyStr ''0091-9876543210''))) - 12)
                     (filter isdigit (py_str (PyStr ''0091-9876543210''))))"
    by blast
  then have "normalize_phone (PyStr ''0091-9876543210'') = Some ''919876543210''"
    by (simp add: isdigit_def)
  with h show ?thesis by (simp add: isdigit_def)
qed

section \<open>Properties of batch\_lookup\<close>

lemma map_of_fold_update:
  "map_of (fold (\<lambda>(k, v) d. AList.update k v d) kvs d0) = map_of d0 ++ map_of (rev kvs)"
proof (induction kvs arbitrary: d0)
  case Nil
  then show ?case by simp
next
  case (Cons kv kvs)
  obtain k v where kv: "kv = (k, v)" by (cases kv)
  show ?case
    by (auto simp: kv Cons.IH update_conv' fun_eq_iff map_add_def split: option.splits)
qed

lemma map_of_dict_comp: "map_of (dict_comp kvs) = map_of (rev kvs)"
  by (simp add: dict_comp_def map_of_fold_update)

lemma distinct_fold_update:
  "distinct (map fst d0) \<Longrightarrow> distinct (map fst (fold (\<lambda>(k, v) d. AList.update k v d) kvs d0))"
  by (induction kvs arbitrary: d0) (auto simp: distinct_update)

lemma distinct_dict_comp: "distinct (map fst (dict_comp kvs))"
  by (simp add: dict_comp_def distinct_fold_update)

lemma dict_comp_subset:
  assumes "(k, v) \<in> set (dict_comp kvs)"
  shows "(k, v) \<in> set kvs"
proof -
  have "map_of (dict_comp kvs) k = Some v"
    using assms by (simp add: map_of_eq_Some_iff[OF distinct_dict_comp])
  then have "map_of (rev kvs) k = Some v" by (simp add: map_of_dict_comp)
  then show ?thesis using map_of_SomeD by fastforce
qed

lemma dict_comp_mem:
  assumes "map_of (rev kvs) k = Some v"
  shows "(k, v) \<in> set (dict_comp kvs)"
  using assms map_of_SomeD[of "dict_comp kvs" k v] by (simp add: map_of_dict_comp)

lemma map_of_results:
  assumes "\<forall>(k, orig)\<in>set items. k = g orig"
  shows "map_of (fold (\<lambda>(normalized, original) results.
                      if A normalized then AList.update original (a normalized) results
                      else if B normalized then AList.update original (b normalized) results
                      else AList.update original c results) items r0) p
         = (if p \<in> snd ` set items
            then Some (if A (g p) then a (g p) else if B (g p) then b (g p) else c)
            else map_of r0 p)"
  using assms
proof (induction items arbitrary: r0)
  case Nil
  then show ?case by simp
next
  case (Cons it items)
  obtain k orig where it: "it = (k, orig)" by (cases it)
  from Cons.prems have k: "k = g orig" and rest: "\<forall>(k, orig)\<in>set items. k = g orig"
    by (auto simp: it)
  show ?case
    unfolding it fold_simps prod.case
    by (subst Cons.IH[OF rest]) (auto simp: update_conv' k)
qed


lemma map_of_unique:
  assumes "(k, v) \<in> set xs" and "\<forall>v'. (k, v') \<in> set xs \<longrightarrow> v' = v"
  shows "map_of xs k = Some v"
proof (cases "map_of xs k")
  case None
  then show ?thesis using assms(1) by (auto simp: map_of_eq_None_iff image_iff)
next
  case (Some v')
  then have "(k, v') \<in> set xs" by (rule map_of_SomeD)
  with assms(2) Some show ?thesis by simp
qed

lemma batch_lookup_ok:
  assumes "pool_available st" "live_query_ok st" "historical_query_ok st"
    and "(k, p) \<in> set (dict_comp (map (\<lambda>p. (normalize_phone p, p)) (filter truthy phone_numbers)))"
  shows "map_of (batch_lookup st phone_numbers) p =
     Some (let items = dict_comp (map (\<lambda>p. (normalize_phone p, p)) (filter truthy phone_numbers));
               hist = dict_comp (map (\<lambda>(k, n, pr). (k, [(''name'', n), (''property'', pr)]))
                                 (query_historical st (map fst items)))
           in if normalize_phone p \<in> set (query_live st (map fst items))
              then (True, ''service'', Some [(''found_in'', Some ''live_data'')])
              else if normalize_phone p \<in> fst ` set hist
              then (True, ''service'',
                    Some ((''found_in'', Some ''historical_data'') # dict_get hist (normalize_phone p) []))
              else (False, ''enquiry'', None))"
proof -
  let ?items = "dict_comp (map (\<lambda>p. (normalize_phone p, p)) (filter truthy phone_numbers))"
  have g: "\<forall>(k, orig)\<in>set ?items. k = normalize_phone orig"
    using dict_comp_subset by fastforce
  have ne: "?items \<noteq> []" "phone_numbers \<noteq> []"
    using assms(4) by (auto simp: dict_comp_def)
  have mem: "p \<in> snd ` set ?items"
    using assms(4) by force
  show ?thesis
    unfolding batch_lookup_def Let_def
    using assms(1-3) ne mem
    by (simp add: map_of_results[OF g])
qed

text \<open>
  Claim C1, as amended. When the pool and both queries succeed, a phone of the batch that
  no other phone of the batch shares its key with, and whose key matches a live row, is
  classified as service with provenance \<^verbatim>\<open>live_data\<close>, whatever the historical table
  holds.
\<close>

theorem C1_live_store_precedence:
  assumes "pool_available st" "live_query_ok st" "historical_query_ok st"
    and "p \<in> set phone_numbers" "truthy p"
    and "\<forall>q\<in>set phone_numbers. truthy q \<and> normalize_phone q = normalize_phone p \<longrightarrow> q = p"
    and "\<exists>c\<in>set (flat_booking_orders st).
           c \<noteq> None \<and> regexp_replace_non_digits c = normalize_phone p"
  shows "map_of (batch_lookup st phone_numbers) p
           = Some (True, ''service'', Some [(''found_in'', Some ''live_data'')])"
proof -
  let ?kvs = "map (\<lambda>p. (normalize_phone p, p)) (filter truthy phone_numbers)"
  let ?items = "dict_comp ?kvs"
  have "map_of (rev ?kvs) (normalize_phone p) = Some p"
    using assms(4-6) by (intro map_of_unique) auto
  then have it: "(normalize_phone p, p) \<in> set ?items" by (rule dict_comp_mem)
  then have key: "normalize_phone p \<in> set (map fst ?items)" by force
  obtain c where c: "c \<in> set (flat_booking_orders st)" "c \<noteq> None"
      "regexp_replace_non_digits c = normalize_phone p"
    using assms(7) by blast
  from c(2,3) have "normalize_phone p \<noteq> None"
    by (cases c) (auto simp: regexp_replace_non_digits_def dest: sym)
  with c key have "normalize_phone p \<in> set (query_live st (map fst ?items))"
    unfolding query_live_def sql_any_def by force
  then show ?thesis
    using batch_lookup_ok[OF assms(1-3) it] by (simp add: Let_def)
qed

theorem C1_live_store_precedence_witness:
  "pool_available example_store \<and> live_query_ok example_store \<and> historical_query_ok example_store
   \<and> PyStr ''9876543210'' \<in> set [PyStr ''9876543210'', PyStr ''123''] \<and> truthy (PyStr ''9876543210'')
   \<and> normalize_phone (PyStr ''123'') \<noteq> normalize_phone (PyStr ''9876543210'')
   \<and> (\<exists>c\<in>set (flat_booking_orders example_store).
         c \<noteq> None \<and> regexp_replace_non_digits c = normalize_phone (PyStr ''9876543210''))
   \<and> (\<exists>r\<in>set (all_tenants_data example_store).
         regexp_replace_non_digits (phone_col r) = normalize_phone (PyStr ''9876543210''))
   \<and> map_of (batch_lookup example_store [PyStr ''9876543210'', PyStr ''123'']) (PyStr ''9876543210'')
       = Some (True, ''service'', Some [(''found_in'', Some ''live_data'')])"
proof -
  have h1: "pool_available example_store" "live_query_ok example_store"
      "historical_query_ok example_store"
    by (simp_all add: example_store_def)
  have h2: "PyStr ''9876543210'' \<in> set [PyStr ''9876543210'', PyStr ''123'']"
      "truthy (PyStr ''9876543210'')"
    by simp_all
  have h3: "\<forall>q\<in>set [PyStr ''9876543210'', PyStr ''123''].
         truthy q \<and> normalize_phone q = normalize_phone (PyStr ''9876543210'') \<longrightarrow> q = PyStr ''9876543210''"
    by (simp add: normalize_phone_PyStr isdigit_def)
  have h4: "\<exists>c\<in>set (flat_booking_orders example_store).
         c \<noteq> None \<and> regexp_replace_non_digits c = normalize_phone (PyStr ''9876543210'')"
    by (simp add: example_store_def regexp_replace_non_digits_def normalize_phone_PyStr isdigit_def)
  have h5: "\<exists>r\<in>set (all_tenants_data example_store).
         regexp_replace_non_digits (phone_col r) = normalize_phone (PyStr ''9876543210'')"
    by (simp add: example_store_def regexp_replace_non_digits_def normalize_phone_PyStr isdigit_def)
  have h6: "normalize_phone (PyStr ''123'') \<noteq> normalize_phone (PyStr ''9876543210'')"
    by (simp add: normalize_phone_PyStr isdigit_def)
  from h1 h2 h4 h5 h6 C1_live_store_precedence [OF h1 h2 h3 h4] show ?thesis
    by blast
qed

text \<open>
  Claim C1 as written fails on two inputs. With two raw strings of one key in the batch, the
  earlier one receives no classification although its key matches a live row; and when the
  live query raises, no phone receives a classification.
\<close>

theorem C1_live_store_counterexample:
  "PyStr ''+919876543210'' \<in> set [PyStr ''+919876543210'', PyStr ''9876543210'']
   \<and> regexp_replace_non_digits (Some ''+91 98765-43210'') = normalize_phone (PyStr ''+919876543210'')
   \<and> map_of (batch_lookup example_store [PyStr ''+919876543210'', PyStr ''9876543210''])
        (PyStr ''+919876543210'') = None
   \<and> map_of (batch_lookup (example_store\<lparr>live_query_ok := False\<rparr>) [PyStr ''+919876543210''])
        (PyStr ''+919876543210'') = None"
  by (simp add: batch_lookup_def example_store_def dict_comp_def normalize_phone_def isdigit_def
      query_live_def query_historical_def sql_any_def regexp_replace_non_digits_def Let_def)

text \<open>
  Claim C3 at the batch \<^verbatim>\<open>["+919876543210", "9876543210"]\<close>: both raw strings have
  the key \<^verbatim>\<open>919876543210\<close>, which matches a live row. The result of the batch lookup
  holds an entry for the later string only, while the one-by-one lookup classifies each of
  the two strings as service.
\<close>

theorem C3_colliding_raw_strings:
  "normalize_phone (PyStr ''+919876543210'') = normalize_phone (PyStr ''9876543210'')
   \<and> batch_lookup example_store [PyStr ''+919876543210'', PyStr ''9876543210'']
       = [(PyStr ''9876543210'', True, ''service'', Some [(''found_in'', Some ''live_data'')])]
   \<and> map_of (batch_lookup example_store [PyStr ''+919876543210'', PyStr ''9876543210''])
        (PyStr ''+919876543210'') = None
   \<and> fst (snd (is_tenant example_store (PyStr ''+919876543210''))) = Some ''service''
   \<and> fst (snd (is_tenant example_store (PyStr ''9876543210''))) = Some ''service''"
  by (simp add: batch_lookup_def is_tenant_def limit_1_def example_store_def dict_comp_def
      normalize_phone_def isdigit_def query_live_def query_historical_def sql_any_def
      regexp_replace_non_digits_def Let_def)

section \<open>Properties of fetch\_calls\<close>

lemma fetch_loop_stop:
  assumes "\<not> continues (api (length sent))"
  shows "fetch_loop api req acc sent =
           Some (sent @ [req],
                 case api (length sent) of
                   Request_failed \<Rightarrow> Exception acc
                 | Response status_code body \<Rightarrow>
                     if status_code = 200
                     then (case body of None \<Rightarrow> Exception acc | Some data \<Rightarrow> Break (acc @ Calls data))
                     else Break acc)"
  using assms
  by (subst fetch_loop.simps) (auto split: http_response.splits option.splits)

lemma fetch_loop_step:
  assumes "continues (api (length sent))"
  shows "\<exists>req'. fetch_loop api req acc sent =
           fetch_loop api req' (acc @ page_calls (api (length sent))) (sent @ [req])"
  using assms
  by (subst fetch_loop.simps) (auto split: http_response.splits option.splits)

lemma fetch_loop_run:
  assumes "\<forall>i. length sent \<le> i \<and> i < n \<longrightarrow> continues (api i)"
    and "\<not> continues (api n)" and "length sent \<le> n"
  shows "\<exists>reqs. fetch_loop api req acc sent =
           Some (reqs,
                 let all_calls = acc @ concat (map (\<lambda>i. page_calls (api i)) [length sent..<n]) in
                 case api n of
                   Request_failed \<Rightarrow> Exception all_calls
                 | Response status_code body \<Rightarrow>
                     if status_code = 200
                     then (case body of None \<Rightarrow> Exception all_calls
                           | Some data \<Rightarrow> Break (all_calls @ Calls data))
                     else Break all_calls)
         \<and> length reqs = Suc n"
  using assms
proof (induction "n - length sent" arbitrary: sent req acc)
  case 0
  then have n: "length sent = n" by simp
  with "0.prems"(2) have "\<not> continues (api (length sent))" by simp
  from fetch_loop_stop[of api sent req acc, OF this] n show ?case by (simp add: Let_def)
next
  case (Suc d)
  then have lt: "length sent < n" by simp
  with Suc.prems(1) have c: "continues (api (length sent))" by simp
  from fetch_loop_step[of api sent req acc, OF c] obtain req' where
    step: "fetch_loop api req acc sent =
           fetch_loop api req' (acc @ page_calls (api (length sent))) (sent @ [req])"
    by blast
  have d: "d = n - length (sent @ [req])" using Suc.hyps(2) by simp
  have p1: "\<forall>i. length (sent @ [req]) \<le> i \<and> i < n \<longrightarrow> continues (api i)"
    using Suc.prems(1) by simp
  have p3: "length (sent @ [req]) \<le> n" using lt by simp
  have up: "[length sent..<n] = length sent # [length (sent @ [req])..<n]"
    using lt by (simp add: upt_conv_Cons)
  from Suc.hyps(1)[OF d p1 Suc.prems(2) p3, of req' "acc @ page_calls (api (length sent))"]
  show ?case unfolding step up by simp
qed

lemma fetch_calls_run:
  assumes "\<forall>i<n. continues (api i)" and "\<not> continues (api n)"
  shows "\<exists>reqs. fetch_calls api base_url (Some flt) =
           Some (reqs,
                 case api n of
                   Request_failed \<Rightarrow> []
                 | Response status_code body \<Rightarrow>
                     if status_code = 200
                     then (case body of None \<Rightarrow> [] | Some data \<Rightarrow> received api (Suc n))
                     else received api n)
         \<and> length reqs = Suc n"
proof -
  let ?req = "\<lparr>url = base_url @ ''/Calls.json'',
                params = [(''DateCreated'', PyStr flt), (''PageSize'', PyInt 100),
                          (''SortBy'', PyStr ''DateCreated:desc'')]\<rparr>"
  have "\<forall>i. length ([] :: request list) \<le> i \<and> i < n \<longrightarrow> continues (api i)"
    using assms(1) by simp
  from fetch_loop_run[OF this assms(2), of ?req "[]"]
  obtain reqs where r: "fetch_loop api ?req [] [] =
           Some (reqs,
                 let all_calls = [] @ concat (map (\<lambda>i. page_calls (api i)) [length ([] :: request list)..<n]) in
                 case api n of
                   Request_failed \<Rightarrow> Exception all_calls
                 | Response status_code body \<Rightarrow>
                     if status_code = 200
                     then (case body of None \<Rightarrow> Exception all_calls
                           | Some data \<Rightarrow> Break (all_calls @ Calls data))
                     else Break all_calls)"
    and len: "length reqs = Suc n"
    by auto
  show ?thesis
    using len
    by (auto simp: fetch_calls_def r received_def Let_def split: http_response.splits option.splits)
qed

lemma received_full_pages:
  assumes "\<forall>i<n. PageSize \<le> length (page_calls (api i))"
  shows "PageSize * n \<le> length (received api n)"
  using assms
proof (induction n)
  case 0
  then show ?case by (simp add: received_def)
next
  case (Suc n)
  then have "PageSize * n \<le> length (received api n)" by simp
  moreover have "PageSize \<le> length (page_calls (api n))" using Suc.prems by simp
  moreover have "received api (Suc n) = received api n @ page_calls (api n)"
    by (simp add: received_def)
  ultimately show ?case by simp
qed

text \<open>
  Claim C2, as amended. After \<open>n\<close> pages that continue the pagination, a response with a
  status other than 200 ends the fetch at that request, and the records of the \<open>n\<close> pages
  are returned; a request that raises (timeout, connection failure) ends the fetch at that
  request as well, but the empty list is returned.
\<close>

theorem C2_fetch_abort:
  assumes "\<forall>i<n. continues (api i)"
  shows "(\<forall>status_code body. api n = Response status_code body \<and> status_code \<noteq> 200 \<longrightarrow>
            (\<exists>reqs. fetch_calls api base_url (Some flt) = Some (reqs, received api n)
                     \<and> length reqs = Suc n))
       \<and> (api n = Request_failed \<longrightarrow>
            (\<exists>reqs. fetch_calls api base_url (Some flt) = Some (reqs, [])
                     \<and> length reqs = Suc n))"
proof (intro conjI allI impI)
  fix status_code body
  assume a: "api n = Response status_code body \<and> status_code \<noteq> 200"
  then have "\<not> continues (api n)" by (cases body) auto
  from fetch_calls_run[OF assms this, of base_url flt] a
  show "\<exists>reqs. fetch_calls api base_url (Some flt) = Some (reqs, received api n)
                \<and> length reqs = Suc n"
    by auto
next
  assume a: "api n = Request_failed"
  then have "\<not> continues (api n)" by simp
  from fetch_calls_run[OF assms this, of base_url flt] a
  show "\<exists>reqs. fetch_calls api base_url (Some flt) = Some (reqs, []) \<and> length reqs = Suc n"
    by auto
qed

theorem C2_fetch_abort_witness:
  "(\<exists>reqs. fetch_calls example_api_status500 ''https://api.exotel.com/v1/Accounts/a''
              (Some ''gte:2025-01-01 00:00:00;lte:2025-01-02 23:59:59'') = Some (reqs, [''CA1''])
           \<and> length reqs = 2)
   \<and> (\<exists>reqs. fetch_calls example_api_timeout ''https://api.exotel.com/v1/Accounts/a''
              (Some ''gte:2025-01-01 00:00:00;lte:2025-01-02 23:59:59'') = Some (reqs, [])
           \<and> length reqs = 2)"
proof -
  have h1: "\<forall>i<1. continues (example_api_status500 i)"
    by (simp add: example_api_status500_def)
  have h2: "\<forall>i<1. continues (example_api_timeout i)"
    by (simp add: example_api_timeout_def)
  have e1: "example_api_status500 1 = Response 500 None \<and> (500::nat) \<noteq> 200"
    by (simp add: example_api_status500_def)
  have e2: "example_api_timeout 1 = Request_failed"
    by (simp add: example_api_timeout_def)
  have r: "received example_api_status500 1 = [''CA1'']"
    by (simp add: received_def example_api_status500_def)
  from C2_fetch_abort [OF h1, of "''https://api.exotel.com/v1/Accounts/a''"
      "''gte:2025-01-01 00:00:00;lte:2025-01-02 23:59:59''"] e1 r
  have "\<exists>reqs. fetch_calls example_api_status500 ''https://api.exotel.com/v1/Accounts/a''
              (Some ''gte:2025-01-01 00:00:00;lte:2025-01-02 23:59:59'') = Some (reqs, [''CA1''])
           \<and> length reqs = 2"
    by (metis One_nat_def Suc_1)
  moreover from C2_fetch_abort [OF h2, of "''https://api.exotel.com/v1/Accounts/a''"
      "''gte:2025-01-01 00:00:00;lte:2025-01-02 23:59:59''"] e2
  have "\<exists>reqs. fetch_calls example_api_timeout ''https://api.exotel.com/v1/Accounts/a''
              (Some ''gte:2025-01-01 00:00:00;lte:2025-01-02 23:59:59'') = Some (reqs, [])
           \<and> length reqs = 2"
    by (metis One_nat_def Suc_1)
  ultimately show ?thesis by blast
qed

text \<open>
  Claim C2 as written fails: after one page of one record, a timeout on the second request
  makes \<^verbatim>\<open>fetch_calls\<close> return the empty list, not the record accumulated, while status
  500 on the second request returns that record.
\<close>

theorem C2_timeout_counterexample:
  "received example_api_timeout 1 = [''CA1'']
   \<and> example_api_timeout 1 = Request_failed
   \<and> map_option snd (fetch_calls example_api_timeout ''https://api.exotel.com/v1/Accounts/a''
        (Some ''gte:2025-01-01 00:00:00;lte:2025-01-02 23:59:59'')) = Some []
   \<and> map_option snd (fetch_calls example_api_status500 ''https://api.exotel.com/v1/Accounts/a''
        (Some ''gte:2025-01-01 00:00:00;lte:2025-01-02 23:59:59'')) = Some [''CA1'']"
  by (simp add: fetch_calls_def fetch_loop.simps received_def
      example_api_timeout_def example_api_status500_def)

text \<open>
  Claim C6, as amended. When the \<open>m\<close>-th response is the first that does not continue the
  pagination (no cursor, an empty page, a status other than 200 or a failed request), the
  fetch returns after exactly \<open>m + 1\<close> requests, so that no request follows that response;
  and when each of the pages before it holds at least \<^verbatim>\<open>PageSize\<close> records, this
  number is at most the records delivered divided by \<^verbatim>\<open>PageSize\<close>, rounded up, plus one.
\<close>

theorem C6_pagination_requests:
  assumes "\<forall>i<m. continues (api i)" and "\<not> continues (api m)"
  shows "\<exists>reqs calls. fetch_calls api base_url (Some flt) = Some (reqs, calls)
           \<and> length reqs = Suc m
           \<and> ((\<forall>i<m. PageSize \<le> length (page_calls (api i))) \<longrightarrow>
                length reqs \<le> (length (received api (Suc m)) + PageSize - 1) div PageSize + 1)"
proof -
  from fetch_calls_run[OF assms, of base_url flt]
  obtain reqs calls where r: "fetch_calls api base_url (Some flt) = Some (reqs, calls)"
    and len: "length reqs = Suc m"
    by blast
  have "length reqs \<le> (length (received api (Suc m)) + PageSize - 1) div PageSize + 1"
    if full: "\<forall>i<m. PageSize \<le> length (page_calls (api i))"
  proof -
    have "PageSize * m \<le> length (received api m)"
      using full by (rule received_full_pages)
    also have "\<dots> \<le> length (received api (Suc m))"
      by (simp add: received_def)
    finally have "100 * m \<le> length (received api (Suc m))"
      by (simp add: PageSize_def)
    then show ?thesis using len by (simp add: PageSize_def)
  qed
  with r len show ?thesis by blast
qed

theorem C6_pagination_requests_witness:
  "continues (example_api_full_pages 0) \<and> \<not> continues (example_api_full_pages 1)
   \<and> PageSize \<le> length (page_calls (example_api_full_pages 0))
   \<and> length (received example_api_full_pages 2) = 137
   \<and> (\<exists>reqs calls. fetch_calls example_api_full_pages ''https://api.exotel.com/v1/Accounts/a''
          (Some ''gte:2025-01-01 00:00:00;lte:2025-01-02 23:59:59'') = Some (reqs, calls)
        \<and> length reqs = 2
        \<and> length reqs \<le> (137 + PageSize - 1) div PageSize + 1)"
proof -
  have h1: "\<forall>i<1. continues (example_api_full_pages i)"
    by (simp add: example_api_full_pages_def)
  have h2: "\<not> continues (example_api_full_pages 1)"
    by (simp add: example_api_full_pages_def)
  have h3: "\<forall>i<1. PageSize \<le> length (page_calls (example_api_full_pages i))"
    by (simp add: example_api_full_pages_def PageSize_def)
  have h4: "length (received example_api_full_pages (Suc 1)) = 137"
    by (simp add: received_def example_api_full_pages_def)
  from C6_pagination_requests [OF h1 h2, of "''https://api.exotel.com/v1/Accounts/a''"
      "''gte:2025-01-01 00:00:00;lte:2025-01-02 23:59:59''"] h3 h4
  have "\<exists>reqs calls. fetch_calls example_api_full_pages ''https://api.exotel.com/v1/Accounts/a''
          (Some ''gte:2025-01-01 00:00:00;lte:2025-01-02 23:59:59'') = Some (reqs, calls)
        \<and> length reqs = 2
        \<and> length reqs \<le> (137 + PageSize - 1) div PageSize + 1"
    by (metis One_nat_def Suc_1)
  with h1 h2 h3 h4 show ?thesis by (simp add: numeral_2_eq_2)
qed

text \<open>
  Claim C6 as written fails: three pages of one record each take three requests, while
  three records at a page size of 100 allow two.
\<close>

theorem C6_short_pages_counterexample:
  "map_option (\<lambda>r. length (fst r))
      (fetch_calls example_api_short_pages ''https://api.exotel.com/v1/Accounts/a''
         (Some ''gte:2025-01-01 00:00:00;lte:2025-01-02 23:59:59'')) = Some 3
   \<and> map_option (\<lambda>r. length (snd r))
      (fetch_calls example_api_short_pages ''https://api.exotel.com/v1/Accounts/a''
         (Some ''gte:2025-01-01 00:00:00;lte:2025-01-02 23:59:59'')) = Some 3
   \<and> (3 + PageSize - 1) div PageSize + 1 = 2"
  by (simp add: fetch_calls_def fetch_loop.simps example_api_short_pages_def PageSize_def)

section \<open>Bounds on the rounded percentages\<close>

lemma pow2_pos: "0 < pow2 e"
  by (simp add: pow2_def)

lemma round_half_even_le:
  assumes "q \<le> of_int N"
  shows "round_half_even q \<le> N"
proof -
  have f: "\<lfloor>q\<rfloor> \<le> N" using assms by (simp add: floor_le_iff) 
  show ?thesis
  proof (cases "q = of_int \<lfloor>q\<rfloor>")
    case True
    then show ?thesis using f by (simp add: round_half_even_def Let_def)
  next
    case False
    have "\<lfloor>q\<rfloor> \<noteq> N"
    proof
      assume e: "\<lfloor>q\<rfloor> = N"
      have "of_int \<lfloor>q\<rfloor> \<le> q" by (rule of_int_floor_le)
      with assms e have "q = of_int \<lfloor>q\<rfloor>" by simp
      with False show False by simp
    qed
    with f have "\<lfloor>q\<rfloor> < N" by simp
    then show ?thesis by (simp add: round_half_even_def Let_def)
  qed
qed

lemma round_half_even_ge:
  assumes "of_int N \<le> q"
  shows "N \<le> round_half_even q"
proof -
  have "N \<le> \<lfloor>q\<rfloor>" using assms by (simp add: le_floor_iff)
  then show ?thesis by (simp add: round_half_even_def Let_def)
qed

lemma exponent_le:
  assumes "0 < q"
  shows "pow2 (exponent q) \<le> q"
proof -
  obtain a b where ab: "quotient_of q = (a, b)" by (cases "quotient_of q")
  then have b: "0 < b" by (rule quotient_of_denom_pos)
  from ab have q: "q = of_int a / of_int b" by (rule quotient_of_div)
  with assms b have a: "0 < a" by (simp add: zero_less_divide_iff)
  let ?la = "floorlog 2 (nat a)" and ?lb = "floorlog 2 (nat b)"
  have la: "2 ^ (?la - 1) \<le> nat a" and lb: "nat b < 2 ^ ?lb"
    using floorlog_bounds[of "nat a" 2] floorlog_bounds[of "nat b" 2] a b by simp_all
  have "?la \<noteq> 0" using a by (simp add: floorlog_eq_zero_iff)
  then have la1: "1 \<le> ?la" by simp
  have A: "(2::rat) ^ (?la - 1) \<le> of_int a"
  proof -
    have "(2::rat) ^ (?la - 1) = of_nat (2 ^ (?la - 1))" by simp
    also have "\<dots> \<le> of_nat (nat a)" using la by (simp only: of_nat_le_iff)
    also have "\<dots> = of_int a" using a by simp
    finally show ?thesis .
  qed
  have B: "of_int b \<le> (2::rat) ^ ?lb"
  proof -
    have "of_int b = (of_nat (nat b) :: rat)" using b by simp
    also have "\<dots> \<le> of_nat (2 ^ ?lb)" using lb by (simp only: of_nat_le_iff less_imp_le)
    finally show ?thesis by simp
  qed
  have "pow2 (int ?la - int ?lb - 1) = (2::rat) ^ (?la - 1) / 2 ^ ?lb"
  proof -
    have e: "int ?la - int ?lb - 1 = int (?la - 1) - int ?lb" using la1 by simp
    have "(2::rat) powi (int (?la - 1) - int ?lb) = 2 powi int (?la - 1) / 2 powi int ?lb"
      by (rule power_int_diff) simp
    then show ?thesis by (simp only: pow2_def e power_int_of_nat)
  qed
  also have "\<dots> \<le> of_int a / of_int b"
    using A B a b by (intro frac_le) simp_all
  finally have low: "pow2 (int ?la - int ?lb - 1) \<le> q" by (simp add: q)
  show ?thesis
    using low assms by (simp add: exponent_def ab Let_def)
qed

lemma exponent_less:
  assumes "0 < q" and "q < pow2 m"
  shows "exponent q < m"
proof (rule ccontr)
  assume "\<not> exponent q < m"
  then have "m \<le> exponent q" by simp
  then have "pow2 m \<le> pow2 (exponent q)"
    by (simp add: pow2_def power_int_increasing)
  with exponent_le[OF assms(1)] assms(2) show False by simp
qed

lemma to_double_bound:
  assumes "0 \<le> q" and "q \<le> of_int B" and "of_int B < pow2 52"
  shows "\<exists>r. to_double q = Finite r \<and> 0 \<le> r \<and> r \<le> of_int B"
proof (cases "q = 0")
  case True
  with assms show ?thesis by (simp add: to_double_def)
next
  case False
  with assms have pos: "0 < q" by simp
  let ?k = "max (exponent q - 52) (- 1074)"
  let ?u = "pow2 ?k"
  let ?m = "round_half_even (q / ?u)"
  have "exponent q < 52"
    using pos assms by (intro exponent_less) simp_all
  then have k: "?k \<le> 0" by simp
  define M where "M = (2::int) ^ nat (- ?k)"
  have u: "?u = 1 / of_int M"
    using k by (simp add: M_def pow2_def power_int_def field_simps) 
  have Mpos: "0 < M" by (simp add: M_def)
  have "q / ?u = q * of_int M" by (simp add: u)
  also have "\<dots> \<le> of_int B * of_int M"
    using assms(2) Mpos by (simp add: mult_right_mono)
  finally have "q / ?u \<le> of_int (B * M)" by simp
  then have m_le: "?m \<le> B * M" by (rule round_half_even_le)
  have "(of_int 0 :: rat) \<le> q / ?u"
    using pos pow2_pos[of ?k] by simp
  then have m_ge: "0 \<le> ?m" by (rule round_half_even_ge)
  let ?r = "of_int ?m * ?u"
  have r_ge: "0 \<le> ?r" using m_ge pow2_pos[of ?k] by simp
  have "?r = of_int ?m / of_int M" by (simp add: u)
  also have "\<dots> \<le> of_int (B * M) / of_int M"
  proof (rule divide_right_mono)
    show "(of_int ?m :: rat) \<le> of_int (B * M)" using m_le by (simp only: of_int_le_iff)
    show "(0::rat) \<le> of_int M" using Mpos by simp
  qed
  also have "\<dots> = of_int B" using Mpos by simp
  finally have r_le: "?r \<le> of_int B" .
  have "pow2 52 \<le> pow2 1024" by (simp add: pow2_def power_int_increasing)
  with r_le assms(3) have fin: "\<not> pow2 1024 \<le> ?r" by simp
  have "\<not> ?r \<le> - pow2 1024" using r_ge pow2_pos[of 1024] by simp
  with fin r_ge r_le False show ?thesis
    by (simp add: to_double_def Let_def)
qed

lemma percentage_bounds:
  assumes "0 \<le> s" and "s \<le> n" and "0 < n"
  shows "\<exists>q. percentage s n = Inr (PFloat (Finite q)) \<and> 0 \<le> q \<and> q \<le> 100"
proof -
  have one: "(of_int 1 :: rat) < pow2 52" and hundred: "(of_int 100 :: rat) < pow2 52"
    by (simp_all add: pow2_def)
  have "0 \<le> (of_int s / of_int n :: rat)" "(of_int s / of_int n :: rat) \<le> of_int 1"
    using assms by simp_all
  from to_double_bound[OF this one] obtain r1 where
    r1: "to_double (of_int s / of_int n) = Finite r1" "0 \<le> r1" "r1 \<le> 1"
    by auto
  have "0 \<le> r1 * 100" "r1 * 100 \<le> of_int 100" using r1 by simp_all
  from to_double_bound[OF this hundred] obtain r2 where
    r2: "to_double (r1 * 100) = Finite r2" "0 \<le> r2" "r2 \<le> 100"
    by auto
  have "(of_int 0 :: rat) \<le> r2 * 10" "r2 * 10 \<le> of_int 1000" using r2 by simp_all
  then have "0 \<le> round_half_even (r2 * 10)" "round_half_even (r2 * 10) \<le> 1000"
    by (simp_all add: round_half_even_ge round_half_even_le)
  then have "0 \<le> (of_int (round_half_even (r2 * 10)) / 10 :: rat)"
    "(of_int (round_half_even (r2 * 10)) / 10 :: rat) \<le> of_int 100"
    by simp_all
  from to_double_bound[OF this hundred] obtain r3 where
    r3: "to_double (of_int (round_half_even (r2 * 10)) / 10) = Finite r3" "0 \<le> r3" "r3 \<le> 100"
    by auto
  show ?thesis
    using assms(3) r1 r2 r3
    by (simp add: percentage_def int_truediv_def float_mul_100_def py_round1_def)
qed

lemma exponent_upper:
  assumes "0 < q"
  shows "q < pow2 (exponent q + 1)"
proof -
  obtain a b where ab: "quotient_of q = (a, b)" by (cases "quotient_of q")
  then have b: "0 < b" by (rule quotient_of_denom_pos)
  from ab have q: "q = of_int a / of_int b" by (rule quotient_of_div)
  with assms b have a: "0 < a" by (simp add: zero_less_divide_iff)
  let ?la = "floorlog 2 (nat a)" and ?lb = "floorlog 2 (nat b)"
  have la: "nat a < 2 ^ ?la" and lb: "2 ^ (?lb - 1) \<le> nat b"
    using floorlog_bounds[of "nat a" 2] floorlog_bounds[of "nat b" 2] a b by simp_all
  have "?lb \<noteq> 0" using b by (simp add: floorlog_eq_zero_iff)
  then have lb1: "1 \<le> ?lb" by simp
  have A: "of_int a < (2::rat) ^ ?la"
  proof -
    have "of_int a = (of_nat (nat a) :: rat)" using a by simp
    also have "\<dots> < of_nat (2 ^ ?la)" using la by (simp only: of_nat_less_iff)
    finally show ?thesis by simp
  qed
  have B: "(2::rat) ^ (?lb - 1) \<le> of_int b"
  proof -
    have "(2::rat) ^ (?lb - 1) = of_nat (2 ^ (?lb - 1))" by simp
    also have "\<dots> \<le> of_nat (nat b)" using lb by (simp only: of_nat_le_iff)
    also have "\<dots> = of_int b" using b by simp
    finally show ?thesis .
  qed
  have "of_int a / of_int b < (2::rat) ^ ?la / 2 ^ (?lb - 1)"
    using A B a b by (intro frac_less) simp_all
  also have "\<dots> = pow2 (int ?la - int ?lb + 1)"
  proof -
    have e: "int ?la - int ?lb + 1 = int ?la - int (?lb - 1)" using lb1 by simp
    have "(2::rat) powi (int ?la - int (?lb - 1)) = 2 powi int ?la / 2 powi int (?lb - 1)"
      by (rule power_int_diff) simp
    then show ?thesis by (simp only: pow2_def e power_int_of_nat)
  qed
  finally have up: "q < pow2 (int ?la - int ?lb + 1)" by (simp add: q)
  show ?thesis
    using up assms by (auto simp: exponent_def ab Let_def not_le)
qed

lemma pow2_lessD:
  assumes "pow2 a < pow2 b"
  shows "a < b"
proof (rule ccontr)
  assume "\<not> a < b"
  then have "pow2 b \<le> pow2 a" by (simp add: pow2_def power_int_increasing)
  with assms show False by simp
qed

lemma exponent_eqI:
  assumes "0 < q" and "pow2 e \<le> q" and "q < pow2 (e + 1)"
  shows "exponent q = e"
proof -
  have "pow2 e < pow2 (exponent q + 1)"
    using assms(2) exponent_upper[OF assms(1)] by simp
  then have "e < exponent q + 1"
    by (rule pow2_lessD)
  moreover have "pow2 (exponent q) < pow2 (e + 1)"
    using exponent_le[OF assms(1)] assms(3) by simp
  then have "exponent q < e + 1"
    by (rule pow2_lessD)
  ultimately show ?thesis by simp
qed

lemma exponent_values:
  "exponent 1 = 0" "exponent (1 / 2) = - 1" "exponent 50 = 5" "exponent 100 = 6"
  by (rule exponent_eqI; simp add: pow2_def)+

lemma to_double_values:
  "to_double 1 = Finite 1" "to_double (1 / 2) = Finite (1 / 2)"
  "to_double 50 = Finite 50" "to_double 100 = Finite 100"
  by (simp_all add: to_double_def exponent_values pow2_def round_half_even_def Let_def)

lemma percentage_values:
  "percentage 2 4 = Inr (PFloat (Finite 50))"
  "percentage 4 4 = Inr (PFloat (Finite 100))"
  "percentage 0 4 = Inr (PFloat (Finite 0))"
  by (simp_all add: percentage_def int_truediv_def float_mul_100_def py_round1_def
      to_double_values round_half_even_def Let_def to_double_def[of 0])

section \<open>Properties of calculate\_comparison\<close>

lemma calculate_comparison_absent:
  "current_analytics = None \<or> previous_analytics = None \<Longrightarrow>
      calculate_comparison current_analytics previous_analytics =
        \<lparr>total_calls_change = 0, incoming_calls_change = 0, service_calls_change = 0,
         enquiry_calls_change = 0, total_calls_pct = PInt 0, incoming_calls_pct = PInt 0,
         service_calls_pct = PInt 0, enquiry_calls_pct = PInt 0\<rparr>"
  by (auto simp: calculate_comparison_def Let_def split: option.splits)

lemma calculate_comparison_present:
  fixes current previous :: analytics
  defines "P \<equiv> \<lambda>c. total_calls_change c = total_calls current - total_calls previous
         \<and> incoming_calls_change c = incoming_calls current - incoming_calls previous
         \<and> service_calls_change c = service_calls current - service_calls previous
         \<and> enquiry_calls_change c = enquiry_calls current - enquiry_calls previous
         \<and> (total_calls previous = 0 \<longrightarrow> total_calls_pct c = PInt 0)
         \<and> (incoming_calls previous = 0 \<longrightarrow> incoming_calls_pct c = PInt 0)
         \<and> (service_calls previous = 0 \<longrightarrow> service_calls_pct c = PInt 0)
         \<and> (enquiry_calls previous = 0 \<longrightarrow> enquiry_calls_pct c = PInt 0)"
  shows "P (calculate_comparison (Some current) (Some previous))"
proof -
  let ?c0 = "\<lparr>total_calls_change = total_calls current - total_calls previous,
              incoming_calls_change = incoming_calls current - incoming_calls previous,
              service_calls_change = service_calls current - service_calls previous,
              enquiry_calls_change = enquiry_calls current - enquiry_calls previous,
              total_calls_pct = PInt 0, incoming_calls_pct = PInt 0,
              service_calls_pct = PInt 0, enquiry_calls_pct = PInt 0\<rparr>"
  have p0: "P ?c0" by (simp add: P_def)
  have s1: "P x" if "pct_step (total_calls previous) ch (\<lambda>v c. c\<lparr>total_calls_pct := v\<rparr>) c = Inl x \<or>
      pct_step (total_calls previous) ch (\<lambda>v c. c\<lparr>total_calls_pct := v\<rparr>) c = Inr x" and "P c" for c ch x
    using that by (auto simp: P_def pct_step_def split: if_splits sum.splits)
  have s2: "P x" if "pct_step (incoming_calls previous) ch (\<lambda>v c. c\<lparr>incoming_calls_pct := v\<rparr>) c = Inl x \<or>
      pct_step (incoming_calls previous) ch (\<lambda>v c. c\<lparr>incoming_calls_pct := v\<rparr>) c = Inr x" and "P c" for c ch x
    using that by (auto simp: P_def pct_step_def split: if_splits sum.splits)
  have s3: "P x" if "pct_step (service_calls previous) ch (\<lambda>v c. c\<lparr>service_calls_pct := v\<rparr>) c = Inl x \<or>
      pct_step (service_calls previous) ch (\<lambda>v c. c\<lparr>service_calls_pct := v\<rparr>) c = Inr x" and "P c" for c ch x
    using that by (auto simp: P_def pct_step_def split: if_splits sum.splits)
  have s4: "P x" if "pct_step (enquiry_calls previous) ch (\<lambda>v c. c\<lparr>enquiry_calls_pct := v\<rparr>) c = Inl x \<or>
      pct_step (enquiry_calls previous) ch (\<lambda>v c. c\<lparr>enquiry_calls_pct := v\<rparr>) c = Inr x" and "P c" for c ch x
    using that by (auto simp: P_def pct_step_def split: if_splits sum.splits)
  show ?thesis
    unfolding calculate_comparison_def Let_def option.case
    apply (simp only: comparison.simps)
    using p0
    by (simp split: sum.splits) (blast intro: s1 s2 s3 s4)
qed

text \<open>
  Claim C8. When either snapshot is absent the comparison holds 0 in every field. When both
  are present, each of the four deltas is the current value minus the previous one, and the
  percentage of a metric whose previous value is 0 is the integer 0 it was initialised
  with: no division takes place, so it is neither NaN nor an infinity.
\<close>

theorem C8_comparison_zero_guard:
  "(current_analytics = None \<or> previous_analytics = None \<longrightarrow>
      calculate_comparison current_analytics previous_analytics =
        \<lparr>total_calls_change = 0, incoming_calls_change = 0, service_calls_change = 0,
         enquiry_calls_change = 0, total_calls_pct = PInt 0, incoming_calls_pct = PInt 0,
         service_calls_pct = PInt 0, enquiry_calls_pct = PInt 0\<rparr>)
   \<and> (\<forall>current previous.
         current_analytics = Some current \<and> previous_analytics = Some previous \<longrightarrow>
           total_calls_change (calculate_comparison current_analytics previous_analytics)
             = total_calls current - total_calls previous
         \<and> incoming_calls_change (calculate_comparison current_analytics previous_analytics)
             = incoming_calls current - incoming_calls previous
         \<and> service_calls_change (calculate_comparison current_analytics previous_analytics)
             = service_calls current - service_calls previous
         \<and> enquiry_calls_change (calculate_comparison current_analytics previous_analytics)
             = enquiry_calls current - enquiry_calls previous
         \<and> (total_calls previous = 0 \<longrightarrow>
               total_calls_pct (calculate_comparison current_analytics previous_analytics) = PInt 0)
         \<and> (incoming_calls previous = 0 \<longrightarrow>
               incoming_calls_pct (calculate_comparison current_analytics previous_analytics) = PInt 0)
         \<and> (service_calls previous = 0 \<longrightarrow>
               service_calls_pct (calculate_comparison current_analytics previous_analytics) = PInt 0)
         \<and> (enquiry_calls previous = 0 \<longrightarrow>
               enquiry_calls_pct (calculate_comparison current_analytics previous_analytics) = PInt 0))"
proof (intro conjI allI impI)
  assume "current_analytics = None \<or> previous_analytics = None"
  then show "calculate_comparison current_analytics previous_analytics =
        \<lparr>total_calls_change = 0, incoming_calls_change = 0, service_calls_change = 0,
         enquiry_calls_change = 0, total_calls_pct = PInt 0, incoming_calls_pct = PInt 0,
         service_calls_pct = PInt 0, enquiry_calls_pct = PInt 0\<rparr>"
    by (rule calculate_comparison_absent)
qed (use calculate_comparison_present in simp_all)

theorem C8_comparison_zero_guard_witness:
  "incoming_calls example_previous = 0
   \<and> incoming_calls_change (calculate_comparison (Some example_current) (Some example_previous)) = 10
   \<and> incoming_calls_pct (calculate_comparison (Some example_current) (Some example_previous)) = PInt 0
   \<and> service_calls_pct (calculate_comparison (Some example_current) (Some example_previous)) = PInt 0"
proof -
  have h: "incoming_calls example_previous = 0" "service_calls example_previous = 0"
      "incoming_calls example_current - incoming_calls example_previous = 10"
    by (simp_all add: example_previous_def example_current_def)
  from C8_comparison_zero_guard [of "Some example_current" "Some example_previous"] h
  show ?thesis by simp
qed

section \<open>Properties of process\_analytics\<close>








lemma merged_mem:
  "(l, c) \<in> set (concat (map (\<lambda>l.
        let matches = filter (\<lambda>(r, c). K r = K l) inc
        in if matches = [] then [(l, ''outgoing'')] else map (\<lambda>(r, c). (l, c)) matches) df))
   \<longleftrightarrow> l \<in> set df
        \<and> ((c = ''outgoing'' \<and> (\<forall>(r, c')\<in>set inc. K r \<noteq> K l))
            \<or> (\<exists>r. (r, c) \<in> set inc \<and> K r = K l))"
  by (auto simp: Let_def filter_empty_conv split: if_splits) force+

lemma categorize_calls_cases:
  assumes "categorize_calls st calls df = Inr df'" and "(l, c) \<in> set df'"
  shows "l \<in> set df
     \<and> (c = ''unknown'' \<and> \<not> (has_column calls ''Direction'' \<and> has_column calls ''From'')
        \<or> c = ''outgoing''
            \<and> (\<forall>r\<in>set df. cell r ''Direction'' = PyStr ''inbound''
                   \<longrightarrow> merge_key (cell r ''Sid'') \<noteq> merge_key (cell l ''Sid''))
        \<or> has_column calls ''Direction'' \<and> has_column calls ''From''
            \<and> (\<exists>r\<in>set df. cell r ''Direction'' = PyStr ''inbound''
                  \<and> merge_key (cell r ''Sid'') = merge_key (cell l ''Sid'')
                  \<and> c = fst (snd (dict_get
                          (batch_lookup st (unique (map (\<lambda>r. cell r ''From'')
                              (filter (\<lambda>r. cell r ''Direction'' = PyStr ''inbound'') df))))
                          (cell r ''From'') (False, ''enquiry'', None)))))"
proof (cases "has_column calls ''Direction'' \<and> has_column calls ''From''")
  case False
  with assms show ?thesis by (auto simp: categorize_calls_def)
next
  case cols: True
  show ?thesis
  proof (cases "filter (\<lambda>r. cell r ''Direction'' = PyStr ''inbound'') df = []")
    case True
    with cols assms have "l \<in> set df" "c = ''outgoing''"
      by (auto simp: categorize_calls_def)
    moreover from True have "\<forall>r\<in>set df. cell r ''Direction'' \<noteq> PyStr ''inbound''"
      by (simp add: filter_empty_conv)
    ultimately show ?thesis by simp
  next
    case False
    let ?inc = "map (\<lambda>r. (r, fst (snd (dict_get
                          (batch_lookup st (unique (map (\<lambda>r. cell r ''From'')
                              (filter (\<lambda>r. cell r ''Direction'' = PyStr ''inbound'') df))))
                          (cell r ''From'') (False, ''enquiry'', None)))))
                   (filter (\<lambda>r. cell r ''Direction'' = PyStr ''inbound'') df)"
    from False cols assms(1) have
      "df' = concat (map (\<lambda>l.
          let matches = filter (\<lambda>(r, c). (\<lambda>r. merge_key (cell r ''Sid'')) r
                                            = (\<lambda>r. merge_key (cell r ''Sid'')) l) ?inc
          in if matches = [] then [(l, ''outgoing'')] else map (\<lambda>(r, c). (l, c)) matches) df)"
      by (auto simp: categorize_calls_def Let_def split: if_splits)
    with assms(2) have "l \<in> set df
        \<and> ((c = ''outgoing'' \<and> (\<forall>(r, c')\<in>set ?inc.
                 merge_key (cell r ''Sid'') \<noteq> merge_key (cell l ''Sid'')))
            \<or> (\<exists>r. (r, c) \<in> set ?inc \<and> merge_key (cell r ''Sid'') = merge_key (cell l ''Sid'')))"
      by (simp only: merged_mem)
    then show ?thesis using cols by auto
  qed
qed

lemma count_rows_mono:
  assumes "\<forall>x\<in>set xs. P x \<longrightarrow> Q x"
  shows "count_rows P xs \<le> count_rows Q xs"
  using assms by (induction xs) (auto simp: count_rows_def)


lemma count_rows_nonneg: "0 \<le> count_rows P xs"
  by (simp add: count_rows_def)

lemma process_analytics_SomeD:
  assumes "process_analytics pd st calls flt = Some a"
  shows "\<exists>df'. categorize_calls st calls (filter_by_exophone calls flt) = Inr df'
      \<and> service_calls a = count_rows (\<lambda>x. snd x = ''service'') df'
      \<and> enquiry_calls a = count_rows (\<lambda>x. snd x = ''enquiry'') df'
      \<and> incoming_calls a = (if has_column calls ''Direction''
                             then count_rows (\<lambda>x. cell (fst x) ''Direction'' = PyStr ''inbound'') df'
                             else 0)
      \<and> (if incoming_calls a > 0
          then percentage (service_calls a) (incoming_calls a) = Inr (service_percentage a)
             \<and> percentage (enquiry_calls a) (incoming_calls a) = Inr (enquiry_percentage a)
          else service_percentage a = PInt 0 \<and> enquiry_percentage a = PInt 0)"
proof -
  from assms obtain df' where
    c: "categorize_calls st calls (filter_by_exophone calls flt) = Inr df'"
    by (cases "categorize_calls st calls (filter_by_exophone calls flt)")
       (auto simp: process_analytics_def Let_def split: if_splits)
  show ?thesis
    using assms unfolding process_analytics_def Let_def c
    by (intro exI[of _ df'])
       (auto simp: case_prod_unfold split: if_splits sum.splits)
qed


lemma filter_by_exophone_distinct:
  assumes "distinct (map f calls)"
  shows "distinct (map f (filter_by_exophone calls flt))"
  using assms by (auto simp: filter_by_exophone_def Let_def distinct_map_filter split: option.splits)

lemma categorized_inbound:
  assumes d: "distinct (map (\<lambda>r. merge_key (cell r ''Sid'')) df)"
    and c: "categorize_calls st calls df = Inr df'"
    and m: "x \<in> set df'"
    and s: "snd x = ''service'' \<or> snd x = ''enquiry''"
  shows "cell (fst x) ''Direction'' = PyStr ''inbound'' \<and> has_column calls ''Direction''"
proof -
  from m have m': "(fst x, snd x) \<in> set df'" by simp
  from d have inj: "inj_on (\<lambda>r. merge_key (cell r ''Sid'')) (set df)"
    by (simp add: distinct_map)
  from categorize_calls_cases[OF c m'] s
  have l: "fst x \<in> set df" and cols: "has_column calls ''Direction''"
    and ex: "\<exists>r\<in>set df. cell r ''Direction'' = PyStr ''inbound''
                  \<and> merge_key (cell r ''Sid'') = merge_key (cell (fst x) ''Sid'')"
    by auto
  from ex obtain r where r: "r \<in> set df" "cell r ''Direction'' = PyStr ''inbound''"
      "merge_key (cell r ''Sid'') = merge_key (cell (fst x) ''Sid'')"
    by blast
  from inj r(3) r(1) l have "r = fst x" by (rule inj_onD)
  with r(2) cols show ?thesis by simp
qed









lemma process_analytics_date_raises:
  assumes "has_column calls ''DateCreated''"
    and "\<not> to_datetime_ok pd (map (\<lambda>r. cell r ''DateCreated'') (filter_by_exophone calls flt))"
  shows "process_analytics pd st calls flt = None"
  using assms by (simp add: process_analytics_def Let_def)

lemma counts_le_inbound:
  assumes d: "distinct (map (\<lambda>r. merge_key (cell r ''Sid'')) df)"
    and c: "categorize_calls st calls df = Inr df'"
  shows "count_rows (\<lambda>x. snd x = ''service'') df'
           \<le> count_rows (\<lambda>x. cell (fst x) ''Direction'' = PyStr ''inbound'') df'"
    and "count_rows (\<lambda>x. snd x = ''enquiry'') df'
           \<le> count_rows (\<lambda>x. cell (fst x) ''Direction'' = PyStr ''inbound'') df'"
  using categorized_inbound[OF d c] by (auto intro!: count_rows_mono)

text \<open>
  Claim C9. For records with pairwise distinct \<^verbatim>\<open>Sid\<close> values, every snapshot that
  \<^verbatim>\<open>process_analytics\<close> returns has \<^verbatim>\<open>service_percentage\<close> and
  \<^verbatim>\<open>enquiry_percentage\<close> equal to \<^verbatim>\<open>round(count / incoming_calls * 100, 1)\<close> when
  \<^verbatim>\<open>incoming_calls\<close> is positive and equal to 0 when it is 0, and both are finite values
  between 0 and 100. (They need not add up to 100: each is rounded on its own.)
\<close>

theorem C9_percentages:
  assumes "distinct (map (\<lambda>r. merge_key (cell r ''Sid'')) calls)"
    and "process_analytics pd st calls exophone_filter = Some a"
  shows "(0 < incoming_calls a \<longrightarrow>
            percentage (service_calls a) (incoming_calls a) = Inr (service_percentage a)
          \<and> percentage (enquiry_calls a) (incoming_calls a) = Inr (enquiry_percentage a))
       \<and> (incoming_calls a = 0 \<longrightarrow>
            service_percentage a = PInt 0 \<and> enquiry_percentage a = PInt 0)
       \<and> (\<exists>v. value_of (service_percentage a) = Some v \<and> 0 \<le> v \<and> v \<le> 100)
       \<and> (\<exists>v. value_of (enquiry_percentage a) = Some v \<and> 0 \<le> v \<and> v \<le> 100)"
proof -
  let ?df = "filter_by_exophone calls exophone_filter"
  from process_analytics_SomeD[OF assms(2)] obtain df' where
    c: "categorize_calls st calls ?df = Inr df'"
    and sc: "service_calls a = count_rows (\<lambda>x. snd x = ''service'') df'"
    and ec: "enquiry_calls a = count_rows (\<lambda>x. snd x = ''enquiry'') df'"
    and ic: "incoming_calls a = (if has_column calls ''Direction''
                             then count_rows (\<lambda>x. cell (fst x) ''Direction'' = PyStr ''inbound'') df'
                             else 0)"
    and pc: "if incoming_calls a > 0
          then percentage (service_calls a) (incoming_calls a) = Inr (service_percentage a)
             \<and> percentage (enquiry_calls a) (incoming_calls a) = Inr (enquiry_percentage a)
          else service_percentage a = PInt 0 \<and> enquiry_percentage a = PInt 0"
    by blast
  have d: "distinct (map (\<lambda>r. merge_key (cell r ''Sid'')) ?df)"
    using assms(1) by (rule filter_by_exophone_distinct)
  show ?thesis
  proof (cases "0 < incoming_calls a")
    case False
    with pc show ?thesis by auto
  next
    case True
    with ic have col: "has_column calls ''Direction''" by (auto split: if_splits)
    have s: "0 \<le> service_calls a" "service_calls a \<le> incoming_calls a"
      and e: "0 \<le> enquiry_calls a" "enquiry_calls a \<le> incoming_calls a"
      using counts_le_inbound[OF d c] col by (simp_all add: sc ec ic count_rows_nonneg)
    from percentage_bounds[OF s True] percentage_bounds[OF e True] pc True
    show ?thesis by auto
  qed
qed

lemma example_calls_distinct:
  "distinct (map (\<lambda>r. merge_key (cell r ''Sid'')) example_calls)"
  by (simp add: example_calls_def cell_def merge_key_def)

lemma example_snapshot:
  "process_analytics example_pandas example_store example_calls (Some ''8047361499'') =
     Some \<lparr>total_calls = 4, incoming_calls = 4, outgoing_calls = 0, answered_calls = 3,
           missed_calls = 1, service_calls = 2, enquiry_calls = 2,
           service_percentage = PFloat (Finite 50), enquiry_percentage = PFloat (Finite 50)\<rparr>"
  by (simp add: process_analytics_def filter_by_exophone_def matches_exophone_def row_get_def
      has_column_def cell_def categorize_calls_def unique_def merge_key_def count_rows_def
      batch_lookup_def example_store_def example_calls_def example_pandas_def dict_comp_def
      dict_get_def normalize_phone_def isdigit_def query_live_def query_historical_def
      sql_any_def regexp_replace_non_digits_def percentage_values Let_def sublist_code)

theorem C9_percentages_witness:
  "distinct (map (\<lambda>r. merge_key (cell r ''Sid'')) example_calls)
   \<and> process_analytics example_pandas example_store example_calls (Some ''8047361499'') =
       Some \<lparr>total_calls = 4, incoming_calls = 4, outgoing_calls = 0, answered_calls = 3,
             missed_calls = 1, service_calls = 2, enquiry_calls = 2,
             service_percentage = PFloat (Finite 50), enquiry_percentage = PFloat (Finite 50)\<rparr>
   \<and> percentage 2 4 = Inr (PFloat (Finite 50))
   \<and> value_of (PFloat (Finite 50)) = Some 50"
proof -
  from C9_percentages [OF example_calls_distinct example_snapshot]
  have "percentage 2 4 = Inr (PFloat (Finite 50))" by simp
  with example_calls_distinct example_snapshot show ?thesis by simp
qed





end
